theory Spec2Isabelle
  imports Main "HOL-Library.Sublist"
begin

section \<open>Calendar dates and the date-fns operations used by the engines\<close>

text \<open>
  The recurrence and alert engines (\<^verbatim>\<open>utils/recurrence.ts\<close>, \<^verbatim>\<open>utils/alertEngine.ts\<close>) work on
  JavaScript \<^verbatim>\<open>Date\<close> objects through the date-fns library. A \<^verbatim>\<open>Date\<close> is modelled by its
  local calendar date and the milliseconds elapsed since local midnight; the JavaScript
  ``Invalid Date'' is \<open>None\<close>. Calendar arithmetic is proleptic Gregorian, as in ECMAScript.
\<close>

record date =
  year :: int
  month :: int
  day :: int

record jsdate =
  cal :: date
  ms_of_day :: nat

datatype error = RangeError

definition leap_year :: "int \<Rightarrow> bool" where
  "leap_year y \<longleftrightarrow> y mod 4 = 0 \<and> (y mod 100 \<noteq> 0 \<or> y mod 400 = 0)"

definition days_in_month :: "int \<Rightarrow> int \<Rightarrow> int" where
  "days_in_month y m =
     (if m = 2 then (if leap_year y then 29 else 28)
      else if m = 4 \<or> m = 6 \<or> m = 9 \<or> m = 11 then 30
      else 31)"

definition valid_date :: "date \<Rightarrow> bool" where
  "valid_date d \<longleftrightarrow>
     1 \<le> month d \<and> month d \<le> 12 \<and> 1 \<le> day d \<and> day d \<le> days_in_month (year d) (month d)"

definition next_day :: "date \<Rightarrow> date" where
  "next_day d =
     (if day d < days_in_month (year d) (month d) then d\<lparr>day := day d + 1\<rparr>
      else if month d < 12 then d\<lparr>month := month d + 1, day := 1\<rparr>
      else d\<lparr>year := year d + 1, month := 1, day := 1\<rparr>)"

definition prev_day :: "date \<Rightarrow> date" where
  "prev_day d =
     (if 1 < day d then d\<lparr>day := day d - 1\<rparr>
      else if 1 < month d
        then d\<lparr>month := month d - 1, day := days_in_month (year d) (month d - 1)\<rparr>
      else d\<lparr>year := year d - 1, month := 12, day := 31\<rparr>)"

text \<open>\<^verbatim>\<open>date.setDate(date.getDate() + n)\<close>: the calendar date \<open>n\<close> days later (earlier for
  negative \<open>n\<close>).\<close>

function shift_days :: "date \<Rightarrow> int \<Rightarrow> date" where
  "shift_days d n =
     (if n = 0 then d
      else if 0 < n then shift_days (next_day d) (n - 1)
      else shift_days (prev_day d) (n + 1))"
  by pat_completeness auto
termination
  by (relation "measure (\<lambda>(d, n). nat \<bar>n\<bar>)") auto

declare shift_days.simps [simp del]

text \<open>date-fns \<^verbatim>\<open>addMonths\<close> on the calendar part: move to the desired month and keep the day
  of the month, unless that month is shorter, in which case its last day is taken.\<close>

definition shift_months :: "date \<Rightarrow> int \<Rightarrow> date" where
  "shift_months d n =
     (let k = year d * 12 + (month d - 1) + n;
          y = k div 12;
          m = k mod 12 + 1;
          daysInMonth = days_in_month y m
      in \<lparr>year = y, month = m, day = (if day d \<ge> daysInMonth then daysInMonth else day d)\<rparr>)"

definition date_less :: "date \<Rightarrow> date \<Rightarrow> bool" where
  "date_less a b \<longleftrightarrow>
     year a < year b \<or> (year a = year b \<and> (month a < month b \<or> (month a = month b \<and> day a < day b)))"

text \<open>Comparison of two time values: earlier calendar date, or same date and earlier time.\<close>

definition jsdate_less :: "jsdate \<Rightarrow> jsdate \<Rightarrow> bool" where
  "jsdate_less a b \<longleftrightarrow> date_less (cal a) (cal b) \<or> (cal a = cal b \<and> ms_of_day a < ms_of_day b)"

definition addDays :: "jsdate option \<Rightarrow> int \<Rightarrow> jsdate option" where
  "addDays d amount =
     (case d of None \<Rightarrow> None | Some x \<Rightarrow> Some (x\<lparr>cal := shift_days (cal x) amount\<rparr>))"

definition addWeeks :: "jsdate option \<Rightarrow> int \<Rightarrow> jsdate option" where
  "addWeeks d amount = addDays d (amount * 7)"

definition addMonths :: "jsdate option \<Rightarrow> int \<Rightarrow> jsdate option" where
  "addMonths d amount =
     (case d of None \<Rightarrow> None | Some x \<Rightarrow> Some (x\<lparr>cal := shift_months (cal x) amount\<rparr>))"

definition addQuarters :: "jsdate option \<Rightarrow> int \<Rightarrow> jsdate option" where
  "addQuarters d amount = addMonths d (amount * 3)"

text \<open>\<^verbatim>\<open>d.setHours(0, 0, 0, 0)\<close>; an Invalid Date stays invalid.\<close>

definition setHours0 :: "jsdate option \<Rightarrow> jsdate option" where
  "setHours0 d = (case d of None \<Rightarrow> None | Some x \<Rightarrow> Some (x\<lparr>ms_of_day := 0\<rparr>))"

text \<open>\<^verbatim>\<open>isBefore(a, b)\<close> is \<^verbatim>\<open>+a < +b\<close> and \<^verbatim>\<open>isAfter(a, b)\<close> is \<^verbatim>\<open>+a > +b\<close>; a comparison with
  \<^verbatim>\<open>NaN\<close> is false.\<close>

definition isBefore :: "jsdate option \<Rightarrow> jsdate option \<Rightarrow> bool" where
  "isBefore a b = (case (a, b) of (Some x, Some y) \<Rightarrow> jsdate_less x y | _ \<Rightarrow> False)"

definition isAfter :: "jsdate option \<Rightarrow> jsdate option \<Rightarrow> bool" where
  "isAfter a b = (case (a, b) of (Some x, Some y) \<Rightarrow> jsdate_less y x | _ \<Rightarrow> False)"

text \<open>\<^verbatim>\<open>isToday(d)\<close> is \<^verbatim>\<open>isSameDay(d, Date.now())\<close>: both start-of-day values are equal. The
  clock reading is the argument \<open>now\<close>.\<close>

definition isToday :: "jsdate \<Rightarrow> jsdate option \<Rightarrow> bool" where
  "isToday now d = (case d of Some x \<Rightarrow> cal x = cal now | None \<Rightarrow> False)"

subsection \<open>Text form of dates\<close>

definition digit_char :: "nat \<Rightarrow> char" where
  "digit_char n = ''0123456789'' ! (n mod 10)"

fun dec :: "nat \<Rightarrow> string" where
  "dec n = (if n < 10 then [digit_char n] else dec (n div 10) @ [digit_char (n mod 10)])"

declare dec.simps [simp del]

text \<open>JavaScript \<^verbatim>\<open>String(n)\<close> for an integer \<open>n\<close>.\<close>

definition string_of_int :: "int \<Rightarrow> string" where
  "string_of_int i = (if i < 0 then CHR ''-'' # dec (nat (- i)) else dec (nat i))"

definition addLeadingZeros :: "int \<Rightarrow> nat \<Rightarrow> string" where
  "addLeadingZeros number targetLength =
     (let output = dec (nat \<bar>number\<bar>);
          padded = replicate (targetLength - length output) (CHR ''0'') @ output
      in if number < 0 then CHR ''-'' # padded else padded)"

text \<open>\<^verbatim>\<open>format(d, 'yyyy-MM-dd')\<close>; date-fns throws a \<^verbatim>\<open>RangeError\<close> on an Invalid Date. The
  \<^verbatim>\<open>y\<close> token prints the year of the era: \<open>1 - y\<close> for a year \<open>y \<le> 0\<close>.\<close>

definition format_ymd :: "jsdate option \<Rightarrow> error + string" where
  "format_ymd d =
     (case d of
        None \<Rightarrow> Inl RangeError
      | Some x \<Rightarrow>
          (let signedYear = year (cal x);
               y = (if signedYear > 0 then signedYear else 1 - signedYear)
           in Inr (addLeadingZeros y 4 @ ''-'' @ addLeadingZeros (month (cal x)) 2
                   @ ''-'' @ addLeadingZeros (day (cal x)) 2)))"

definition digit_val :: "char \<Rightarrow> int option" where
  "digit_val c = map_of (zip ''0123456789'' [0, 1, 2, 3, 4, 5, 6, 7, 8, 9]) c"

fun parse_digits :: "int \<Rightarrow> string \<Rightarrow> int option" where
  "parse_digits acc [] = Some acc"
| "parse_digits acc (c # cs) =
     (case digit_val c of None \<Rightarrow> None | Some v \<Rightarrow> parse_digits (acc * 10 + v) cs)"

text \<open>\<^verbatim>\<open>parseISO\<close> on the calendar-date form \<^verbatim>\<open>yyyy-MM-dd\<close>, the form that the application
  writes (\<^verbatim>\<open>format(next, 'yyyy-MM-dd')\<close>, HTML date inputs): local midnight of that date, or
  Invalid Date when the text is not a date of the calendar. The other ISO 8601 forms that
  date-fns accepts are not modelled; the results below use \<open>parseISO\<close> only through
  its value.\<close>

definition parseISO :: "string \<Rightarrow> jsdate option" where
  "parseISO s =
     (if length s = 10 \<and> s ! 4 = CHR ''-'' \<and> s ! 7 = CHR ''-'' then
        (case (parse_digits 0 (take 4 s), parse_digits 0 (take 2 (drop 5 s)),
               parse_digits 0 (drop 8 s)) of
           (Some y, Some m, Some d) \<Rightarrow>
             (if valid_date \<lparr>year = y, month = m, day = d\<rparr>
              then Some \<lparr>cal = \<lparr>year = y, month = m, day = d\<rparr>, ms_of_day = 0\<rparr>
              else None)
         | _ \<Rightarrow> None)
      else None)"

section \<open>Data model (\<^verbatim>\<open>types/index.ts\<close>)\<close>

datatype TaskType =
  SystemAdmin | DigitalTransformation | AuditSupport | RiskManagement
  | Reporting | StakeholderEngagement | AdHoc | CustomType

datatype TaskStatus = NotStarted | InProgress | Blocked | UnderReview | Complete | Cancelled

datatype Priority = Critical | High | Medium | Low

datatype MilestoneStatus = Upcoming | MsInProgress | Achieved | Missed

datatype SubtaskStatus = Open | Done

datatype AlertType = Overdue | DueToday | AtRisk | MilestoneDueSoon

text \<open>The string literal behind each member of the unions.\<close>

fun TaskType_text :: "TaskType \<Rightarrow> string" where
  "TaskType_text SystemAdmin = ''System Admin''"
| "TaskType_text DigitalTransformation = ''Digital Transformation''"
| "TaskType_text AuditSupport = ''Audit Support''"
| "TaskType_text RiskManagement = ''Risk Management''"
| "TaskType_text Reporting = ''Reporting''"
| "TaskType_text StakeholderEngagement = ''Stakeholder Engagement''"
| "TaskType_text AdHoc = ''Ad-hoc''"
| "TaskType_text CustomType = ''Custom''"

fun TaskStatus_text :: "TaskStatus \<Rightarrow> string" where
  "TaskStatus_text NotStarted = ''Not Started''"
| "TaskStatus_text InProgress = ''In Progress''"
| "TaskStatus_text Blocked = ''Blocked''"
| "TaskStatus_text UnderReview = ''Under Review''"
| "TaskStatus_text Complete = ''Complete''"
| "TaskStatus_text Cancelled = ''Cancelled''"

fun Priority_text :: "Priority \<Rightarrow> string" where
  "Priority_text Critical = ''Critical''"
| "Priority_text High = ''High''"
| "Priority_text Medium = ''Medium''"
| "Priority_text Low = ''Low''"

fun AlertType_text :: "AlertType \<Rightarrow> string" where
  "AlertType_text Overdue = ''overdue''"
| "AlertType_text DueToday = ''due-today''"
| "AlertType_text AtRisk = ''at-risk''"
| "AlertType_text MilestoneDueSoon = ''milestone-due-soon''"

record UpdateEntry =
  u_id :: string
  u_timestamp :: string
  u_text :: string

record ChangelogEntry =
  c_id :: string
  c_timestamp :: string
  c_field :: string
  c_oldValue :: string
  c_newValue :: string

record TaskLink =
  l_id :: string
  l_label :: string
  l_url :: string

record Subtask =
  s_id :: string
  s_title :: string
  s_status :: SubtaskStatus
  s_dueDate :: "string option"

record Milestone =
  m_id :: string
  m_name :: string
  m_targetDate :: string
  m_status :: MilestoneStatus

text \<open>\<open>pattern\<close> is the string found at run time, so that the \<^verbatim>\<open>default\<close> branch of
  \<^verbatim>\<open>nextDueDate\<close> has inputs.\<close>

record RecurrenceConfig =
  pattern :: string
  interval :: int
  nextDue :: "string option"
  lastCompleted :: "string option"
  cycleCount :: int

text \<open>Optional fields are options (\<open>None\<close> is \<^verbatim>\<open>undefined\<close>). \<open>reminderDays\<close> is an option as
  well: the alert engine reads it with \<^verbatim>\<open>task.reminderDays || 2\<close>. The field \<^verbatim>\<open>id\<close> is
  \<open>task_id\<close> and \<^verbatim>\<open>notes\<close> is \<open>task_notes\<close>.\<close>

record Task =
  task_id :: string
  title :: string
  description :: "string option"
  taskType :: TaskType
  status :: TaskStatus
  priority :: Priority
  dueDate :: string
  startDate :: "string option"
  assignee :: "string option"
  updates :: "UpdateEntry list"
  task_notes :: "string option"
  subtasks :: "Subtask list"
  milestones :: "Milestone list"
  isRecurring :: bool
  recurrence :: "RecurrenceConfig option"
  reminderDays :: "int option"
  createdAt :: string
  updatedAt :: string
  completedAt :: "string option"
  changelog :: "ChangelogEntry list"
  isPaused :: "bool option"
  links :: "TaskLink list"
  projectId :: "string option"

record AlertItem =
  a_id :: string
  a_type :: AlertType
  a_taskId :: string
  a_taskTitle :: string
  a_milestoneId :: "string option"
  a_milestoneName :: "string option"
  a_date :: string

section \<open>Mutation and changelog engine (\<^verbatim>\<open>store/taskStore.ts\<close>)\<close>

text \<open>
  A patch (\<^verbatim>\<open>Partial<Task>\<close>) is the list of its own entries in insertion order, as
  \<^verbatim>\<open>Object.entries\<close> enumerates them; an entry assigns a value of the field's type, and an
  optional field may be assigned \<^verbatim>\<open>undefined\<close>. The keys are those that callers pass:
  the ones the store declares, and \<^verbatim>\<open>updates\<close> and \<^verbatim>\<open>subtasks\<close>, which
  \<^verbatim>\<open>checkAndGenerateRecurring\<close> passes through its cast. An object has one entry per
  key: \<open>wf_patch\<close>.
\<close>

datatype assignment =
    Set_title string
  | Set_description "string option"
  | Set_taskType TaskType
  | Set_status TaskStatus
  | Set_priority Priority
  | Set_dueDate string
  | Set_startDate "string option"
  | Set_assignee "string option"
  | Set_updates "UpdateEntry list"
  | Set_notes "string option"
  | Set_subtasks "Subtask list"
  | Set_isRecurring bool
  | Set_recurrence "RecurrenceConfig option"
  | Set_reminderDays "int option"
  | Set_updatedAt string
  | Set_completedAt "string option"
  | Set_isPaused "bool option"
  | Set_links "TaskLink list"
  | Set_projectId "string option"

type_synonym patch = "assignment list"

fun key :: "assignment \<Rightarrow> string" where
  "key (Set_title _) = ''title''"
| "key (Set_description _) = ''description''"
| "key (Set_taskType _) = ''taskType''"
| "key (Set_status _) = ''status''"
| "key (Set_priority _) = ''priority''"
| "key (Set_dueDate _) = ''dueDate''"
| "key (Set_startDate _) = ''startDate''"
| "key (Set_assignee _) = ''assignee''"
| "key (Set_updates _) = ''updates''"
| "key (Set_notes _) = ''notes''"
| "key (Set_subtasks _) = ''subtasks''"
| "key (Set_isRecurring _) = ''isRecurring''"
| "key (Set_recurrence _) = ''recurrence''"
| "key (Set_reminderDays _) = ''reminderDays''"
| "key (Set_updatedAt _) = ''updatedAt''"
| "key (Set_completedAt _) = ''completedAt''"
| "key (Set_isPaused _) = ''isPaused''"
| "key (Set_links _) = ''links''"
| "key (Set_projectId _) = ''projectId''"

definition wf_patch :: "patch \<Rightarrow> bool" where
  "wf_patch p \<longleftrightarrow> distinct (map key p)"

text \<open>The run-time values that \<^verbatim>\<open>makeChangelog\<close> receives as \<^verbatim>\<open>unknown\<close>, as far as
  \<^verbatim>\<open>String\<close> tells them apart: an object prints as \<^verbatim>\<open>[object Object]\<close> and an array of
  objects as that text once per element, joined by commas.\<close>

datatype js_value = Undefined | Str string | Num int | Bool bool | Obj | ObjArray nat

definition opt_value :: "('a \<Rightarrow> js_value) \<Rightarrow> 'a option \<Rightarrow> js_value" where
  "opt_value f x = (case x of None \<Rightarrow> Undefined | Some v \<Rightarrow> f v)"

fun new_value :: "assignment \<Rightarrow> js_value" where
  "new_value (Set_title v) = Str v"
| "new_value (Set_description v) = opt_value Str v"
| "new_value (Set_taskType v) = Str (TaskType_text v)"
| "new_value (Set_status v) = Str (TaskStatus_text v)"
| "new_value (Set_priority v) = Str (Priority_text v)"
| "new_value (Set_dueDate v) = Str v"
| "new_value (Set_startDate v) = opt_value Str v"
| "new_value (Set_assignee v) = opt_value Str v"
| "new_value (Set_updates v) = ObjArray (length v)"
| "new_value (Set_notes v) = opt_value Str v"
| "new_value (Set_subtasks v) = ObjArray (length v)"
| "new_value (Set_isRecurring v) = Bool v"
| "new_value (Set_recurrence v) = opt_value (\<lambda>_. Obj) v"
| "new_value (Set_reminderDays v) = opt_value Num v"
| "new_value (Set_updatedAt v) = Str v"
| "new_value (Set_completedAt v) = opt_value Str v"
| "new_value (Set_isPaused v) = opt_value Bool v"
| "new_value (Set_links v) = ObjArray (length v)"
| "new_value (Set_projectId v) = opt_value Str v"

text \<open>\<^verbatim>\<open>task[key]\<close>: the task's present value of the field that the entry assigns.\<close>

fun old_value :: "Task \<Rightarrow> assignment \<Rightarrow> js_value" where
  "old_value t (Set_title _) = Str (title t)"
| "old_value t (Set_description _) = opt_value Str (description t)"
| "old_value t (Set_taskType _) = Str (TaskType_text (taskType t))"
| "old_value t (Set_status _) = Str (TaskStatus_text (status t))"
| "old_value t (Set_priority _) = Str (Priority_text (priority t))"
| "old_value t (Set_dueDate _) = Str (dueDate t)"
| "old_value t (Set_startDate _) = opt_value Str (startDate t)"
| "old_value t (Set_assignee _) = opt_value Str (assignee t)"
| "old_value t (Set_updates _) = ObjArray (length (updates t))"
| "old_value t (Set_notes _) = opt_value Str (task_notes t)"
| "old_value t (Set_subtasks _) = ObjArray (length (subtasks t))"
| "old_value t (Set_isRecurring _) = Bool (isRecurring t)"
| "old_value t (Set_recurrence _) = opt_value (\<lambda>_. Obj) (recurrence t)"
| "old_value t (Set_reminderDays _) = opt_value Num (reminderDays t)"
| "old_value t (Set_updatedAt _) = Str (updatedAt t)"
| "old_value t (Set_completedAt _) = opt_value Str (completedAt t)"
| "old_value t (Set_isPaused _) = opt_value Bool (isPaused t)"
| "old_value t (Set_links _) = ObjArray (length (links t))"
| "old_value t (Set_projectId _) = opt_value Str (projectId t)"

text \<open>One entry of the spread \<^verbatim>\<open>{ ...task, ...updates }\<close>.\<close>

fun assign :: "assignment \<Rightarrow> Task \<Rightarrow> Task" where
  "assign (Set_title v) t = t\<lparr>title := v\<rparr>"
| "assign (Set_description v) t = t\<lparr>description := v\<rparr>"
| "assign (Set_taskType v) t = t\<lparr>taskType := v\<rparr>"
| "assign (Set_status v) t = t\<lparr>status := v\<rparr>"
| "assign (Set_priority v) t = t\<lparr>priority := v\<rparr>"
| "assign (Set_dueDate v) t = t\<lparr>dueDate := v\<rparr>"
| "assign (Set_startDate v) t = t\<lparr>startDate := v\<rparr>"
| "assign (Set_assignee v) t = t\<lparr>assignee := v\<rparr>"
| "assign (Set_updates v) t = t\<lparr>updates := v\<rparr>"
| "assign (Set_notes v) t = t\<lparr>task_notes := v\<rparr>"
| "assign (Set_subtasks v) t = t\<lparr>subtasks := v\<rparr>"
| "assign (Set_isRecurring v) t = t\<lparr>isRecurring := v\<rparr>"
| "assign (Set_recurrence v) t = t\<lparr>recurrence := v\<rparr>"
| "assign (Set_reminderDays v) t = t\<lparr>reminderDays := v\<rparr>"
| "assign (Set_updatedAt v) t = t\<lparr>updatedAt := v\<rparr>"
| "assign (Set_completedAt v) t = t\<lparr>completedAt := v\<rparr>"
| "assign (Set_isPaused v) t = t\<lparr>isPaused := v\<rparr>"
| "assign (Set_links v) t = t\<lparr>links := v\<rparr>"
| "assign (Set_projectId v) t = t\<lparr>projectId := v\<rparr>"

text \<open>\<^verbatim>\<open>updates.status\<close> and \<^verbatim>\<open>next.dueDate\<close>: the value under a key of the patch, \<open>None\<close> when
  the key is absent.\<close>

fun patch_status :: "patch \<Rightarrow> TaskStatus option" where
  "patch_status [] = None"
| "patch_status (a # as) =
     (case patch_status as of
        Some s \<Rightarrow> Some s
      | None \<Rightarrow> (case a of Set_status s \<Rightarrow> Some s | _ \<Rightarrow> None))"


fun objects_text :: "nat \<Rightarrow> string" where
  "objects_text 0 = []"
| "objects_text (Suc 0) = ''[object Object]''"
| "objects_text (Suc (Suc n)) = ''[object Object],'' @ objects_text (Suc n)"

text \<open>\<^verbatim>\<open>String(v ?? '')\<close>.\<close>

fun js_String :: "js_value \<Rightarrow> string" where
  "js_String Undefined = []"
| "js_String (Str s) = s"
| "js_String (Num n) = string_of_int n"
| "js_String (Bool b) = (if b then ''true'' else ''false'')"
| "js_String Obj = ''[object Object]''"
| "js_String (ObjArray n) = objects_text n"

text \<open>
  The environment: \<open>uuid\<close> is the sequence of identifiers that \<^verbatim>\<open>uuidv4()\<close> returns, and
  the number of identifiers drawn so far is threaded through every operation; \<open>now\<close> is
  \<^verbatim>\<open>new Date().toISOString()\<close>, one reading for a whole (synchronous) store operation.
\<close>

definition makeChangelog ::
  "(nat \<Rightarrow> string) \<Rightarrow> string \<Rightarrow> string \<Rightarrow> js_value \<Rightarrow> js_value \<Rightarrow> nat \<Rightarrow> ChangelogEntry \<times> nat" where
  "makeChangelog uuid now field oldValue newValue n =
     (\<lparr>c_id = uuid n, c_timestamp = now, c_field = field,
       c_oldValue = js_String oldValue, c_newValue = js_String newValue\<rparr>, Suc n)"

text \<open>\<^verbatim>\<open>.map(([key, val]) => makeChangelog(key, task[key], val))\<close>, left to right.\<close>

fun changelog_entries ::
  "(nat \<Rightarrow> string) \<Rightarrow> string \<Rightarrow> Task \<Rightarrow> patch \<Rightarrow> nat \<Rightarrow> ChangelogEntry list \<times> nat" where
  "changelog_entries uuid now task [] n = ([], n)"
| "changelog_entries uuid now task (a # as) n =
     (let (e, n1) = makeChangelog uuid now (key a) (old_value task a) (new_value a) n;
          (es, n2) = changelog_entries uuid now task as n1
      in (e # es, n2))"

text \<open>The callback of \<^verbatim>\<open>updateTask\<close> on the task whose id matches.\<close>

definition updateTask_body ::
  "(nat \<Rightarrow> string) \<Rightarrow> string \<Rightarrow> patch \<Rightarrow> Task \<Rightarrow> nat \<Rightarrow> Task \<times> nat" where
  "updateTask_body uuid now upds task n =
     (let (entries, n1) =
            changelog_entries uuid now task (filter (\<lambda>a. key a \<noteq> ''updatedAt'') upds) n;
          completedAt1 =
            (if patch_status upds = Some Complete \<and> status task \<noteq> Complete then Some now
             else if patch_status upds \<noteq> Some Complete \<and> patch_status upds \<noteq> None then None
             else completedAt task)
      in ((fold assign upds task)
            \<lparr>completedAt := completedAt1, updatedAt := now,
             changelog := changelog task @ entries\<rparr>, n1))"

record store =
  tasks :: "Task list"
  uuid_count :: nat

text \<open>\<^verbatim>\<open>tasks.map(cb)\<close> for a callback that may draw identifiers.\<close>

fun map_tasks :: "(Task \<Rightarrow> nat \<Rightarrow> Task \<times> nat) \<Rightarrow> Task list \<Rightarrow> nat \<Rightarrow> Task list \<times> nat" where
  "map_tasks f [] n = ([], n)"
| "map_tasks f (t # ts) n =
     (let (t1, n1) = f t n;
          (ts1, n2) = map_tasks f ts n1
      in (t1 # ts1, n2))"

definition updateTask :: "(nat \<Rightarrow> string) \<Rightarrow> string \<Rightarrow> string \<Rightarrow> patch \<Rightarrow> store \<Rightarrow> store" where
  "updateTask uuid now ident upds s =
     (let (ts, n) =
            map_tasks (\<lambda>task n. if task_id task \<noteq> ident then (task, n)
                                 else updateTask_body uuid now upds task n)
              (tasks s) (uuid_count s)
      in \<lparr>tasks = ts, uuid_count = n\<rparr>)"

definition deleteTask :: "string \<Rightarrow> store \<Rightarrow> store" where
  "deleteTask ident s = s\<lparr>tasks := filter (\<lambda>t. task_id t \<noteq> ident) (tasks s)\<rparr>"

text \<open>Sub-operations. A new subtask or milestone arrives without an id
  (\<^verbatim>\<open>Omit<Subtask, 'id'>\<close>): the id of the argument is overwritten. \<^verbatim>\<open>Partial<Subtask>\<close> and
  \<^verbatim>\<open>Partial<Milestone>\<close> are records of optional assignments, merged by
  \<^verbatim>\<open>{ ...s, ...updates }\<close>.\<close>

record SubtaskPatch =
  sp_id :: "string option"
  sp_title :: "string option"
  sp_status :: "SubtaskStatus option"
  sp_dueDate :: "string option option"

record MilestonePatch =
  mp_id :: "string option"
  mp_name :: "string option"
  mp_targetDate :: "string option"
  mp_status :: "MilestoneStatus option"

definition merge_subtask :: "Subtask \<Rightarrow> SubtaskPatch \<Rightarrow> Subtask" where
  "merge_subtask x p =
     \<lparr>s_id = (case sp_id p of None \<Rightarrow> s_id x | Some v \<Rightarrow> v),
      s_title = (case sp_title p of None \<Rightarrow> s_title x | Some v \<Rightarrow> v),
      s_status = (case sp_status p of None \<Rightarrow> s_status x | Some v \<Rightarrow> v),
      s_dueDate = (case sp_dueDate p of None \<Rightarrow> s_dueDate x | Some v \<Rightarrow> v)\<rparr>"

definition merge_milestone :: "Milestone \<Rightarrow> MilestonePatch \<Rightarrow> Milestone" where
  "merge_milestone x p =
     \<lparr>m_id = (case mp_id p of None \<Rightarrow> m_id x | Some v \<Rightarrow> v),
      m_name = (case mp_name p of None \<Rightarrow> m_name x | Some v \<Rightarrow> v),
      m_targetDate = (case mp_targetDate p of None \<Rightarrow> m_targetDate x | Some v \<Rightarrow> v),
      m_status = (case mp_status p of None \<Rightarrow> m_status x | Some v \<Rightarrow> v)\<rparr>"

definition addSubtask ::
  "(nat \<Rightarrow> string) \<Rightarrow> string \<Rightarrow> string \<Rightarrow> Subtask \<Rightarrow> store \<Rightarrow> store" where
  "addSubtask uuid now taskId subtask s =
     (let (ts, n) =
            map_tasks (\<lambda>task n. if task_id task \<noteq> taskId then (task, n)
                                 else (task\<lparr>subtasks := subtasks task @ [subtask\<lparr>s_id := uuid n\<rparr>],
                                            updatedAt := now\<rparr>, Suc n))
              (tasks s) (uuid_count s)
      in \<lparr>tasks = ts, uuid_count = n\<rparr>)"

definition updateSubtask :: "string \<Rightarrow> string \<Rightarrow> string \<Rightarrow> SubtaskPatch \<Rightarrow> store \<Rightarrow> store" where
  "updateSubtask now taskId subtaskId upds s =
     s\<lparr>tasks :=
         map (\<lambda>task. if task_id task \<noteq> taskId then task
                      else task\<lparr>subtasks :=
                                  map (\<lambda>x. if s_id x = subtaskId then merge_subtask x upds else x)
                                    (subtasks task),
                                updatedAt := now\<rparr>)
           (tasks s)\<rparr>"

definition deleteSubtask :: "string \<Rightarrow> string \<Rightarrow> string \<Rightarrow> store \<Rightarrow> store" where
  "deleteSubtask now taskId subtaskId s =
     s\<lparr>tasks :=
         map (\<lambda>task. if task_id task \<noteq> taskId then task
                      else task\<lparr>subtasks := filter (\<lambda>x. s_id x \<noteq> subtaskId) (subtasks task),
                                updatedAt := now\<rparr>)
           (tasks s)\<rparr>"

definition toggleSubtask :: "string \<Rightarrow> string \<Rightarrow> string \<Rightarrow> store \<Rightarrow> store" where
  "toggleSubtask now taskId subtaskId s =
     s\<lparr>tasks :=
         map (\<lambda>task. if task_id task \<noteq> taskId then task
                      else task\<lparr>subtasks :=
                                  map (\<lambda>x. if s_id x = subtaskId
                                            then x\<lparr>s_status := (if s_status x = Done then Open else Done)\<rparr>
                                            else x)
                                    (subtasks task),
                                updatedAt := now\<rparr>)
           (tasks s)\<rparr>"

definition addMilestone ::
  "(nat \<Rightarrow> string) \<Rightarrow> string \<Rightarrow> string \<Rightarrow> Milestone \<Rightarrow> store \<Rightarrow> store" where
  "addMilestone uuid now taskId milestone s =
     (let (ts, n) =
            map_tasks (\<lambda>task n. if task_id task \<noteq> taskId then (task, n)
                                 else (task\<lparr>milestones := milestones task @ [milestone\<lparr>m_id := uuid n\<rparr>],
                                            updatedAt := now\<rparr>, Suc n))
              (tasks s) (uuid_count s)
      in \<lparr>tasks = ts, uuid_count = n\<rparr>)"

definition updateMilestone ::
  "string \<Rightarrow> string \<Rightarrow> string \<Rightarrow> MilestonePatch \<Rightarrow> store \<Rightarrow> store" where
  "updateMilestone now taskId milestoneId upds s =
     s\<lparr>tasks :=
         map (\<lambda>task. if task_id task \<noteq> taskId then task
                      else task\<lparr>milestones :=
                                  map (\<lambda>x. if m_id x = milestoneId then merge_milestone x upds else x)
                                    (milestones task),
                                updatedAt := now\<rparr>)
           (tasks s)\<rparr>"

definition deleteMilestone :: "string \<Rightarrow> string \<Rightarrow> string \<Rightarrow> store \<Rightarrow> store" where
  "deleteMilestone now taskId milestoneId s =
     s\<lparr>tasks :=
         map (\<lambda>task. if task_id task \<noteq> taskId then task
                      else task\<lparr>milestones := filter (\<lambda>x. m_id x \<noteq> milestoneId) (milestones task),
                                updatedAt := now\<rparr>)
           (tasks s)\<rparr>"

text \<open>\<^verbatim>\<open>addUpdate\<close> draws the id of the update entry first, then one id for the changelog
  entry of each task that matches.\<close>

definition addUpdate :: "(nat \<Rightarrow> string) \<Rightarrow> string \<Rightarrow> string \<Rightarrow> string \<Rightarrow> store \<Rightarrow> store" where
  "addUpdate uuid now taskId text s =
     (let entry = \<lparr>u_id = uuid (uuid_count s), u_timestamp = now, u_text = text\<rparr>;
          (ts, n) =
            map_tasks (\<lambda>task n. if task_id task \<noteq> taskId then (task, n)
                                 else (let (e, n1) = makeChangelog uuid now ''update'' (Str []) (Str text) n
                                       in (task\<lparr>updates := entry # updates task, updatedAt := now,
                                                 changelog := changelog task @ [e]\<rparr>, n1)))
              (tasks s) (Suc (uuid_count s))
      in \<lparr>tasks = ts, uuid_count = n\<rparr>)"

text \<open>The operations by which the host changes a task that stays in the collection, each
  with the instant at which it runs, for statements about sequences of mutations.\<close>

datatype mutation =
    UpdateTask string patch
  | AddSubtask string Subtask
  | UpdateSubtask string string SubtaskPatch
  | DeleteSubtask string string
  | ToggleSubtask string string
  | AddMilestone string Milestone
  | UpdateMilestone string string MilestonePatch
  | DeleteMilestone string string
  | AddUpdate string string

fun apply_mutation :: "(nat \<Rightarrow> string) \<Rightarrow> string \<times> mutation \<Rightarrow> store \<Rightarrow> store" where
  "apply_mutation uuid (now, UpdateTask ident upds) s = updateTask uuid now ident upds s"
| "apply_mutation uuid (now, AddSubtask taskId subtask) s = addSubtask uuid now taskId subtask s"
| "apply_mutation uuid (now, UpdateSubtask taskId subtaskId upds) s =
     updateSubtask now taskId subtaskId upds s"
| "apply_mutation uuid (now, DeleteSubtask taskId subtaskId) s = deleteSubtask now taskId subtaskId s"
| "apply_mutation uuid (now, ToggleSubtask taskId subtaskId) s = toggleSubtask now taskId subtaskId s"
| "apply_mutation uuid (now, AddMilestone taskId milestone) s =
     addMilestone uuid now taskId milestone s"
| "apply_mutation uuid (now, UpdateMilestone taskId milestoneId upds) s =
     updateMilestone now taskId milestoneId upds s"
| "apply_mutation uuid (now, DeleteMilestone taskId milestoneId) s =
     deleteMilestone now taskId milestoneId s"
| "apply_mutation uuid (now, AddUpdate taskId text) s = addUpdate uuid now taskId text s"

section \<open>Recurrence engine (\<^verbatim>\<open>utils/recurrence.ts\<close>)\<close>

definition nextDueDate :: "string \<Rightarrow> string \<Rightarrow> int \<Rightarrow> error + string" where
  "nextDueDate current pat ival =
     (let date = parseISO current;
          next =
            (if pat = ''Daily'' then addDays date ival
             else if pat = ''Weekly'' then addWeeks date ival
             else if pat = ''Bi-weekly'' then addWeeks date (2 * ival)
             else if pat = ''Monthly'' then addMonths date ival
             else if pat = ''Quarterly'' then addQuarters date ival
             else if pat = ''Custom'' then addDays date ival
             else addWeeks date 1)
      in format_ymd next)"

text \<open>The patch of the next cycle, its entries in the order of the object literal.
  \<^verbatim>\<open>(cycleCount || 0)\<close> replaces a falsy count by \<open>0\<close>. The \<^verbatim>\<open>RangeError\<close> of
  \<^verbatim>\<open>format\<close> on an unparseable due date propagates.\<close>

definition generateNextInstance :: "string \<Rightarrow> Task \<Rightarrow> error + patch" where
  "generateNextInstance now task =
     (if \<not> isRecurring task \<or> recurrence task = None then Inr []
      else
        (let r = the (recurrence task) in
         case nextDueDate (dueDate task) (pattern r) (interval r) of
           Inl e \<Rightarrow> Inl e
         | Inr newDue \<Rightarrow>
             Inr [Set_dueDate newDue,
                  Set_status NotStarted,
                  Set_completedAt None,
                  Set_updates [],
                  Set_subtasks (map (\<lambda>x. x\<lparr>s_status := Open\<rparr>) (subtasks task)),
                  Set_recurrence
                    (Some (r\<lparr>lastCompleted := Some now,
                             nextDue := Some newDue,
                             cycleCount := (if cycleCount r = 0 then 0 else cycleCount r) + 1\<rparr>))]))"



text \<open>The two guards of the loop together: the tasks that the driving rule regenerates.\<close>

definition due_for_regeneration :: "Task \<Rightarrow> bool" where
  "due_for_regeneration task \<longleftrightarrow>
     isRecurring task \<and> isPaused task \<noteq> Some True \<and> recurrence task \<noteq> None
     \<and> status task = Complete"


section \<open>Alert engine (\<^verbatim>\<open>utils/alertEngine.ts\<close>)\<close>

text \<open>\<^verbatim>\<open>extra ? ':' + extra : ''\<close>: an absent and an empty \<^verbatim>\<open>extra\<close> are both falsy.\<close>

definition alertId :: "string \<Rightarrow> string \<Rightarrow> string option \<Rightarrow> string" where
  "alertId type taskId extra =
     type @ '':'' @ taskId
       @ (case extra of None \<Rightarrow> [] | Some e \<Rightarrow> if e \<noteq> [] then '':'' @ e else [])"

text \<open>\<^verbatim>\<open>task.reminderDays || 2\<close>: \<open>2\<close> for \<^verbatim>\<open>undefined\<close> and for \<open>0\<close>.\<close>

definition reminder_or_2 :: "Task \<Rightarrow> int" where
  "reminder_or_2 task = (case reminderDays task of None \<Rightarrow> 2 | Some r \<Rightarrow> if r = 0 then 2 else r)"

text \<open>The due-date branch of the loop body: at most one \<^verbatim>\<open>push\<close>. \<open>now\<close> is the reading of
  the clock, \<open>today\<close> its start of day.\<close>

definition due_date_alerts :: "jsdate \<Rightarrow> Task \<Rightarrow> AlertItem list" where
  "due_date_alerts now task =
     (let today = setHours0 (Some now);
          due = setHours0 (parseISO (dueDate task))
      in if isBefore due today then
           [\<lparr>a_id = alertId ''overdue'' (task_id task) None, a_type = Overdue,
             a_taskId = task_id task, a_taskTitle = title task,
             a_milestoneId = None, a_milestoneName = None, a_date = dueDate task\<rparr>]
         else if isToday now due then
           [\<lparr>a_id = alertId ''due-today'' (task_id task) None, a_type = DueToday,
             a_taskId = task_id task, a_taskTitle = title task,
             a_milestoneId = None, a_milestoneName = None, a_date = dueDate task\<rparr>]
         else if (priority task = Critical \<or> priority task = High)
                 \<and> isAfter today (addDays due (- reminder_or_2 task))
                 \<and> \<not> isBefore due today then
           [\<lparr>a_id = alertId ''at-risk'' (task_id task) None, a_type = AtRisk,
             a_taskId = task_id task, a_taskTitle = title task,
             a_milestoneId = None, a_milestoneName = None, a_date = dueDate task\<rparr>]
         else [])"

text \<open>The inner loop over the milestones of one task.\<close>

fun milestone_alerts :: "jsdate \<Rightarrow> Task \<Rightarrow> Milestone list \<Rightarrow> AlertItem list" where
  "milestone_alerts now task [] = []"
| "milestone_alerts now task (ms # rest) =
     (if m_status ms = Achieved \<or> m_status ms = Missed then milestone_alerts now task rest
      else
        (let today = setHours0 (Some now);
             msDate = setHours0 (parseISO (m_targetDate ms))
         in if \<not> isBefore msDate today \<and> isAfter (addDays today 3) msDate then
              \<lparr>a_id = alertId ''milestone-due-soon'' (task_id task) (Some (m_id ms)),
                a_type = MilestoneDueSoon,
                a_taskId = task_id task, a_taskTitle = title task,
                a_milestoneId = Some (m_id ms), a_milestoneName = Some (m_name ms),
                a_date = m_targetDate ms\<rparr> # milestone_alerts now task rest
            else milestone_alerts now task rest))"

fun computeAlerts :: "jsdate \<Rightarrow> Task list \<Rightarrow> AlertItem list" where
  "computeAlerts now [] = []"
| "computeAlerts now (task # rest) =
     (if status task = Complete \<or> status task = Cancelled then computeAlerts now rest
      else due_date_alerts now task @ milestone_alerts now task (milestones task)
           @ computeAlerts now rest)"

section \<open>Projects (\<^verbatim>\<open>store/projectStore.ts\<close>, \<^verbatim>\<open>components/ProjectDetailPanel.tsx\<close>)\<close>

datatype ProjectStatus = Planning | Active | OnHold | ProjectComplete | ProjectCancelled

text \<open>Modelled from the spec: the declaration of the \<^verbatim>\<open>Project\<close> interface is not among the
  sources. The fields are those of the data model (identity, name, status, priority, target
  date, optional start date and owner, links, creation and update instants) and the
  description that \<^verbatim>\<open>ProjectForm\<close> submits.\<close>

record Project =
  p_id :: string
  p_name :: string
  p_description :: "string option"
  p_status :: ProjectStatus
  p_priority :: Priority
  p_targetDate :: string
  p_startDate :: "string option"
  p_owner :: "string option"
  p_links :: "TaskLink list"
  p_createdAt :: string
  p_updatedAt :: string

definition deleteProject :: "string \<Rightarrow> Project list \<Rightarrow> Project list" where
  "deleteProject ident ps = filter (\<lambda>p. p_id p \<noteq> ident) ps"

record app =
  task_store :: store
  projects :: "Project list"

text \<open>\<^verbatim>\<open>handleDelete\<close> of the project panel, for the project with id \<open>live_id\<close>:
  \<^verbatim>\<open>projectTasks.forEach(t => updateTask(t.id, { projectId: undefined }))\<close>, then
  \<^verbatim>\<open>deleteProject(live.id)\<close>.\<close>

definition handleDelete :: "(nat \<Rightarrow> string) \<Rightarrow> string \<Rightarrow> string \<Rightarrow> app \<Rightarrow> app" where
  "handleDelete uuid now live_id a =
     (let projectTasks = filter (\<lambda>t. projectId t = Some live_id) (tasks (task_store a))
      in \<lparr>task_store =
            fold (\<lambda>t. updateTask uuid now (task_id t) [Set_projectId None]) projectTasks
              (task_store a),
          projects = deleteProject live_id (projects a)\<rparr>)"

section \<open>Counting days and months\<close>





section \<open>Identifier bookkeeping\<close>

text \<open>Every identifier of a changelog entry in the store is one that the generator has
  handed out already. With an injective generator this is what makes a fresh identifier
  new.\<close>

definition ids_drawn :: "(nat \<Rightarrow> string) \<Rightarrow> store \<Rightarrow> bool" where
  "ids_drawn uuid s \<longleftrightarrow>
     (\<forall>t\<in>set (tasks s). \<forall>e\<in>set (changelog t). \<exists>j<uuid_count s. c_id e = uuid j)"

text \<open>A later state of a task: the same id, and the earlier changelog as the beginning of
  the later one.\<close>

definition grows :: "Task \<Rightarrow> Task \<Rightarrow> bool" where
  "grows x y \<longleftrightarrow> task_id y = task_id x \<and> prefix (changelog x) (changelog y)"

section \<open>Example data\<close>

definition ex_uuid :: "nat \<Rightarrow> string" where
  "ex_uuid n = ''id-'' @ replicate n (CHR ''i'')"

definition ex_task :: Task where
  "ex_task =
     \<lparr>task_id = ''T1'', title = ''Monthly report'', description = None, taskType = Reporting,
      status = Complete, priority = High, dueDate = ''2024-01-31'', startDate = None,
      assignee = None,
      updates = [\<lparr>u_id = ''U1'', u_timestamp = ''2024-01-30T09:00:00.000Z'', u_text = ''drafted''\<rparr>],
      task_notes = None,
      subtasks = [\<lparr>s_id = ''S1'', s_title = ''Collect figures'', s_status = Done, s_dueDate = None\<rparr>,
                  \<lparr>s_id = ''S2'', s_title = ''Send'', s_status = Open, s_dueDate = None\<rparr>],
      milestones = [\<lparr>m_id = ''M1'', m_name = ''Sign-off'', m_targetDate = ''2024-06-17'',
                      m_status = Upcoming\<rparr>],
      isRecurring = True,
      recurrence = Some \<lparr>pattern = ''Monthly'', interval = 1, nextDue = None,
                          lastCompleted = None, cycleCount = 0\<rparr>,
      reminderDays = Some 2,
      createdAt = ''2024-01-01T08:00:00.000Z'', updatedAt = ''2024-01-30T09:00:00.000Z'',
      completedAt = Some ''2024-01-31T10:00:00.000Z'',
      changelog = [\<lparr>c_id = ''id-'', c_timestamp = ''2024-01-01T08:00:00.000Z'',
                     c_field = ''created'', c_oldValue = [], c_newValue = ''Monthly report''\<rparr>],
      isPaused = None, links = [], projectId = Some ''P1''\<rparr>"

definition ex_store :: store where
  "ex_store = \<lparr>tasks = [ex_task], uuid_count = 1\<rparr>"

definition ex_project :: Project where
  "ex_project =
     \<lparr>p_id = ''P1'', p_name = ''Reporting'', p_description = None, p_status = Active,
      p_priority = High, p_targetDate = ''2024-12-31'', p_startDate = None, p_owner = None,
      p_links = [], p_createdAt = ''2024-01-01T08:00:00.000Z'',
      p_updatedAt = ''2024-01-01T08:00:00.000Z''\<rparr>"

definition ex_app :: app where
  "ex_app = \<lparr>task_store = ex_store, projects = [ex_project]\<rparr>"

text \<open>A reading of the clock on 15 June 2024 at 09:30 local time, and two open tasks: one
  due the next day with priority Critical and \<open>reminderDays = 0\<close>; one due much later whose
  only milestone has an empty id.\<close>

definition ex_now :: jsdate where
  "ex_now = \<lparr>cal = \<lparr>year = 2024, month = 6, day = 15\<rparr>, ms_of_day = 34200000\<rparr>"

definition ex_open_task :: Task where
  "ex_open_task =
     ex_task\<lparr>status := InProgress, priority := Critical, dueDate := ''2024-06-16'',
             reminderDays := Some 0, completedAt := None,
             milestones := [\<lparr>m_id = ''M1'', m_name = ''Sign-off'', m_targetDate = ''2024-06-17'',
                             m_status = Upcoming\<rparr>,
                            \<lparr>m_id = ''M2'', m_name = ''Review'', m_targetDate = ''2024-06-19'',
                             m_status = Upcoming\<rparr>]\<rparr>"

definition ex_blank_task :: Task where
  "ex_blank_task =
     ex_task\<lparr>status := InProgress, priority := Low, dueDate := ''2024-09-30'',
             completedAt := None,
             milestones := [\<lparr>m_id = [], m_name = ''Kick-off'', m_targetDate = ''2024-06-16'',
                             m_status = Upcoming\<rparr>]\<rparr>"

section \<open>Evaluation rules and facts about the calendar\<close>

lemmas dec_numeral [simp] = dec.simps [of "numeral k"] dec.simps [of 0] dec.simps [of 1] dec.simps [of "Suc 0"] for k
lemmas shift_days_numeral [simp] =
  shift_days.simps [of _ "numeral k"] shift_days.simps [of _ "- numeral k"]
  shift_days.simps [of _ 0] shift_days.simps [of _ 1] shift_days.simps [of _ "- 1"] for k

lemmas calendar_defs =
  leap_year_def days_in_month_def valid_date_def next_day_def prev_day_def shift_months_def
  date_less_def jsdate_less_def
lemmas datefns_defs =
  addDays_def addWeeks_def addMonths_def addQuarters_def setHours0_def isBefore_def isAfter_def
  isToday_def
lemmas text_defs =
  digit_char_def string_of_int_def addLeadingZeros_def format_ymd_def digit_val_def parseISO_def













section \<open>The next due date\<close>





section \<open>Properties of the mutation engine\<close>

subsection \<open>Merging a patch\<close>

lemma assign_fixed [simp]:
  "task_id (assign a t) = task_id t"
  "createdAt (assign a t) = createdAt t"
  "changelog (assign a t) = changelog t"
  "milestones (assign a t) = milestones t"
  by (cases a; simp)+

lemma fold_assign_fixed [simp]:
  "task_id (fold assign p t) = task_id t"
  "createdAt (fold assign p t) = createdAt t"
  "changelog (fold assign p t) = changelog t"
  "milestones (fold assign p t) = milestones t"
  by (induction p arbitrary: t; simp)+


lemma changelog_entries_eq:
  "changelog_entries uuid now t p n =
     (map (\<lambda>(j, a). \<lparr>c_id = uuid j, c_timestamp = now, c_field = key a,
                       c_oldValue = js_String (old_value t a),
                       c_newValue = js_String (new_value a)\<rparr>) (enumerate n p),
      n + length p)"
  by (induction p arbitrary: n) (simp_all add: makeChangelog_def)

lemma updateTask_body_changelog:
  "changelog (fst (updateTask_body uuid now p t n)) =
     changelog t @ map (\<lambda>(j, a). \<lparr>c_id = uuid j, c_timestamp = now, c_field = key a,
                       c_oldValue = js_String (old_value t a),
                       c_newValue = js_String (new_value a)\<rparr>)
                     (enumerate n (filter (\<lambda>a. key a \<noteq> ''updatedAt'') p))"
  by (simp add: updateTask_body_def changelog_entries_eq)

lemma updateTask_body_count:
  "snd (updateTask_body uuid now p t n) = n + length (filter (\<lambda>a. key a \<noteq> ''updatedAt'') p)"
  by (simp add: updateTask_body_def changelog_entries_eq)

lemma updateTask_body_fixed [simp]:
  "task_id (fst (updateTask_body uuid now p t n)) = task_id t"
  "createdAt (fst (updateTask_body uuid now p t n)) = createdAt t"
  "milestones (fst (updateTask_body uuid now p t n)) = milestones t"
  "updatedAt (fst (updateTask_body uuid now p t n)) = now"
  by (simp_all add: updateTask_body_def changelog_entries_eq)


lemma updateTask_body_completedAt:
  "completedAt (fst (updateTask_body uuid now p t n)) =
     (if patch_status p = Some Complete \<and> status t \<noteq> Complete then Some now
      else if patch_status p \<noteq> Some Complete \<and> patch_status p \<noteq> None then None
      else completedAt t)"
  by (simp add: updateTask_body_def changelog_entries_eq)

subsection \<open>Mapping over the collection\<close>

lemma map_tasks_length [simp]: "length (fst (map_tasks f ts n)) = length ts"
  by (induction ts arbitrary: n) (simp_all add: split_beta Let_def)

lemma map_tasks_count:
  "(\<And>t k. k \<le> snd (f t k)) \<Longrightarrow> n \<le> snd (map_tasks f ts n)"
proof (induction ts arbitrary: n)
  case Nil
  show ?case by simp
next
  case (Cons t ts)
  have "n \<le> snd (f t n)" by (rule Cons.prems)
  also have "\<dots> \<le> snd (map_tasks f ts (snd (f t n)))" by (rule Cons.IH) (rule Cons.prems)
  finally show ?case by (simp add: split_beta Let_def)
qed

lemma map_tasks_all2:
  assumes "\<And>t k. k \<le> snd (f t k)"
  shows "list_all2 (\<lambda>x y. \<exists>k\<ge>n. y = fst (f x k)) ts (fst (map_tasks f ts n))"
proof (induction ts arbitrary: n)
  case Nil
  show ?case by simp
next
  case (Cons t ts)
  have le: "n \<le> snd (f t n)" by (rule assms)
  have "list_all2 (\<lambda>x y. \<exists>k\<ge>snd (f t n). y = fst (f x k)) ts
          (fst (map_tasks f ts (snd (f t n))))"
    by (rule Cons.IH)
  then have "list_all2 (\<lambda>x y. \<exists>k\<ge>n. y = fst (f x k)) ts
          (fst (map_tasks f ts (snd (f t n))))"
    by (rule list_all2_mono) (use le in \<open>auto intro: order_trans\<close>)
  then show ?case by (auto simp: split_beta Let_def)
qed

lemma map_tasks_unmatched:
  "(\<And>t. t \<in> set ts \<Longrightarrow> P t) \<Longrightarrow>
   map_tasks (\<lambda>t k. if P t then (t, k) else g t k) ts n = (ts, n)"
  by (induction ts arbitrary: n) simp_all

subsection \<open>One update of one task\<close>

lemma updateTask_cb_count:
  "k \<le> snd (if task_id t \<noteq> ident then (t, k) else updateTask_body uuid now p t k)"
  by (simp add: updateTask_body_count)

lemma updateTask_length [simp]: "length (tasks (updateTask uuid now ident p s)) = length (tasks s)"
  by (simp add: updateTask_def split_beta)

lemma updateTask_count: "uuid_count s \<le> uuid_count (updateTask uuid now ident p s)"
  using map_tasks_count [of "\<lambda>t k. if task_id t \<noteq> ident then (t, k)
                                     else updateTask_body uuid now p t k" "uuid_count s" "tasks s"]
  by (simp add: updateTask_def split_beta updateTask_body_count)

lemma updateTask_all2:
  "list_all2 (\<lambda>x y. if task_id x \<noteq> ident then y = x
                     else \<exists>k\<ge>uuid_count s. y = fst (updateTask_body uuid now p x k))
     (tasks s) (tasks (updateTask uuid now ident p s))"
proof -
  let ?f = "\<lambda>t k. if task_id t \<noteq> ident then (t, k) else updateTask_body uuid now p t k"
  have "list_all2 (\<lambda>x y. \<exists>k\<ge>uuid_count s. y = fst (?f x k)) (tasks s)
          (fst (map_tasks ?f (tasks s) (uuid_count s)))"
    by (rule map_tasks_all2) (simp add: updateTask_body_count)
  then have "list_all2 (\<lambda>x y. if task_id x \<noteq> ident then y = x
                     else \<exists>k\<ge>uuid_count s. y = fst (updateTask_body uuid now p x k))
     (tasks s) (fst (map_tasks ?f (tasks s) (uuid_count s)))"
    by (rule list_all2_mono) auto
  then show ?thesis by (simp add: updateTask_def split_beta)
qed

lemma updateTask_nth:
  assumes "i < length (tasks s)"
  shows "if task_id (tasks s ! i) \<noteq> ident
         then tasks (updateTask uuid now ident p s) ! i = tasks s ! i
         else \<exists>k\<ge>uuid_count s.
                tasks (updateTask uuid now ident p s) ! i
                  = fst (updateTask_body uuid now p (tasks s ! i) k)"
  using list_all2_nthD [OF updateTask_all2 assms, of ident uuid now p] .

lemma patch_status_None: "patch_status p = None \<longleftrightarrow> ''status'' \<notin> key ` set p"
proof (induction p)
  case Nil
  show ?case by simp
next
  case (Cons a p)
  then show ?case by (cases a; cases "patch_status p") auto
qed

lemma patch_status_Some: "patch_status p = Some v \<Longrightarrow> Set_status v \<in> set p"
proof (induction p)
  case Nil
  then show ?case by simp
next
  case (Cons a p)
  then show ?case by (cases a; cases "patch_status p") auto
qed

text \<open>
  Claim C3. For the task that \<^verbatim>\<open>updateTask\<close> matches: \<open>completedAt\<close> becomes the current instant
  when the patch's status is Complete and the task was not Complete; it stays as it was when
  the patch's status is Complete and the task was Complete already; it is cleared when the
  patch holds a status other than Complete; and it stays as it was when the patch holds no
  status. The patch's own \<^verbatim>\<open>completedAt\<close> entry, if any, has no effect. \<open>patch_status\<close> is
  \<open>None\<close> exactly when the patch has no \<^verbatim>\<open>status\<close> key, and otherwise a status that the
  patch assigns.
\<close>

theorem updateTask_completedAt:
  assumes "i < length (tasks s)" and "task_id (tasks s ! i) = ident"
  shows "(let t = tasks s ! i; t1 = tasks (updateTask uuid now ident p s) ! i in
          (patch_status p = Some Complete \<and> status t \<noteq> Complete \<longrightarrow> completedAt t1 = Some now)
        \<and> (patch_status p = Some Complete \<and> status t = Complete \<longrightarrow> completedAt t1 = completedAt t)
        \<and> (\<forall>v. patch_status p = Some v \<and> v \<noteq> Complete \<longrightarrow> completedAt t1 = None)
        \<and> (patch_status p = None \<longrightarrow> completedAt t1 = completedAt t)
        \<and> (patch_status p = None \<longleftrightarrow> ''status'' \<notin> key ` set p)
        \<and> (\<forall>v. patch_status p = Some v \<longrightarrow> Set_status v \<in> set p))"
proof -
  let ?t = "tasks s ! i" and ?t1 = "tasks (updateTask uuid now ident p s) ! i"
  from updateTask_nth [OF assms(1), of ident uuid now p] assms(2)
  obtain k where "?t1 = fst (updateTask_body uuid now p ?t k)"
    by auto
  then have c: "completedAt ?t1 =
     (if patch_status p = Some Complete \<and> status ?t \<noteq> Complete then Some now
      else if patch_status p \<noteq> Some Complete \<and> patch_status p \<noteq> None then None
      else completedAt ?t)"
    by (simp only: updateTask_body_completedAt)
  have 1: "patch_status p = Some Complete \<and> status ?t \<noteq> Complete \<longrightarrow> completedAt ?t1 = Some now"
    using c by simp
  have 2: "patch_status p = Some Complete \<and> status ?t = Complete \<longrightarrow> completedAt ?t1 = completedAt ?t"
    using c by simp
  have 3: "\<forall>v. patch_status p = Some v \<and> v \<noteq> Complete \<longrightarrow> completedAt ?t1 = None"
    using c by simp
  have 4: "patch_status p = None \<longrightarrow> completedAt ?t1 = completedAt ?t"
    using c by simp
  have 5: "\<forall>v. patch_status p = Some v \<longrightarrow> Set_status v \<in> set p"
    by (simp add: patch_status_Some)
  from 1 2 3 4 5 patch_status_None [of p] show ?thesis
    unfolding Let_def by blast
qed


theorem updateTask_completedAt_witness:
  "completedAt (tasks (updateTask ex_uuid ''2024-02-01T07:00:00.000Z'' ''T1''
                         [Set_status InProgress] ex_store) ! 0) = None
   \<and> completedAt (tasks (updateTask ex_uuid ''2024-02-01T07:00:00.000Z'' ''T1''
                         [Set_title ''Report''] ex_store) ! 0) = Some ''2024-01-31T10:00:00.000Z''"
  using updateTask_completedAt [where i = 0 and s = ex_store and ident = "''T1''" and uuid = ex_uuid
          and now = "''2024-02-01T07:00:00.000Z''" and p = "[Set_status InProgress]"]
    updateTask_completedAt [where i = 0 and s = ex_store and ident = "''T1''" and uuid = ex_uuid
          and now = "''2024-02-01T07:00:00.000Z''" and p = "[Set_title ''Report'']"]
  by (simp add: ex_store_def ex_task_def Let_def)

subsection \<open>The changelog only grows\<close>

lemma map_tasks_rel:
  assumes "\<And>t k. R t (fst (f t k))"
  shows "list_all2 R ts (fst (map_tasks f ts n))"
  by (induction ts arbitrary: n) (simp_all add: split_beta Let_def assms)

lemma map_rel: "(\<And>t. R t (g t)) \<Longrightarrow> list_all2 R ts (map g ts)"
  by (simp add: list_all2_map2 list_all2_same)

lemma grows_refl [simp]: "grows x x"
  by (simp add: grows_def)

lemma grows_trans: "grows x y \<Longrightarrow> grows y z \<Longrightarrow> grows x z"
  by (auto simp: grows_def intro: prefix_order.trans)

lemma updateTask_body_grows: "grows t (fst (updateTask_body uuid now p t k))"
  by (simp add: grows_def updateTask_body_changelog)

lemma apply_mutation_grows:
  "list_all2 grows (tasks s) (tasks (apply_mutation uuid (now, m) s))"
proof (cases m)
  case (UpdateTask ident p)
  have "list_all2 grows (tasks s)
          (fst (map_tasks (\<lambda>t k. if task_id t \<noteq> ident then (t, k)
                                  else updateTask_body uuid now p t k) (tasks s) (uuid_count s)))"
    by (rule map_tasks_rel) (simp add: updateTask_body_grows)
  with UpdateTask show ?thesis by (simp add: updateTask_def split_beta)
next
  case (AddSubtask taskId subtask)
  have "list_all2 grows (tasks s)
          (fst (map_tasks (\<lambda>task n. if task_id task \<noteq> taskId then (task, n)
                 else (task\<lparr>subtasks := subtasks task @ [subtask\<lparr>s_id := uuid n\<rparr>],
                            updatedAt := now\<rparr>, Suc n)) (tasks s) (uuid_count s)))"
    by (rule map_tasks_rel) (simp add: grows_def)
  with AddSubtask show ?thesis by (simp add: addSubtask_def split_beta)
next
  case (UpdateSubtask taskId subtaskId upds)
  then show ?thesis by (simp add: updateSubtask_def map_rel grows_def)
next
  case (DeleteSubtask taskId subtaskId)
  then show ?thesis by (simp add: deleteSubtask_def map_rel grows_def)
next
  case (ToggleSubtask taskId subtaskId)
  then show ?thesis by (simp add: toggleSubtask_def map_rel grows_def)
next
  case (AddMilestone taskId milestone)
  have "list_all2 grows (tasks s)
          (fst (map_tasks (\<lambda>task n. if task_id task \<noteq> taskId then (task, n)
                 else (task\<lparr>milestones := milestones task @ [milestone\<lparr>m_id := uuid n\<rparr>],
                            updatedAt := now\<rparr>, Suc n)) (tasks s) (uuid_count s)))"
    by (rule map_tasks_rel) (simp add: grows_def)
  with AddMilestone show ?thesis by (simp add: addMilestone_def split_beta)
next
  case (UpdateMilestone taskId milestoneId upds)
  then show ?thesis by (simp add: updateMilestone_def map_rel grows_def)
next
  case (DeleteMilestone taskId milestoneId)
  then show ?thesis by (simp add: deleteMilestone_def map_rel grows_def)
next
  case (AddUpdate taskId msg)
  let ?entry = "\<lparr>u_id = uuid (uuid_count s), u_timestamp = now, u_text = msg\<rparr>"
  have "list_all2 grows (tasks s)
          (fst (map_tasks (\<lambda>task n. if task_id task \<noteq> taskId then (task, n)
                 else (let (e, n1) = makeChangelog uuid now ''update'' (Str []) (Str msg) n
                       in (task\<lparr>updates := ?entry # updates task, updatedAt := now,
                                 changelog := changelog task @ [e]\<rparr>, n1)))
                (tasks s) (Suc (uuid_count s))))"
    by (rule map_tasks_rel) (simp add: grows_def makeChangelog_def)
  with AddUpdate show ?thesis by (simp add: addUpdate_def split_beta Let_def)
qed

lemma mutations_grow:
  "list_all2 grows (tasks s) (tasks (fold (apply_mutation uuid) ms s))"
proof (induction ms arbitrary: s)
  case Nil
  show ?case by (simp add: list_all2_same)
next
  case (Cons m ms)
  obtain now op where m: "m = (now, op)" by (cases m)
  have "list_all2 grows (tasks s) (tasks (apply_mutation uuid m s))"
    unfolding m by (rule apply_mutation_grows)
  moreover have "list_all2 grows (tasks (apply_mutation uuid m s))
                   (tasks (fold (apply_mutation uuid) ms (apply_mutation uuid m s)))"
    by (rule Cons.IH)
  ultimately show ?case
    by (auto intro: list_all2_trans [rotated 1] grows_trans)
qed

subsection \<open>Identifiers of changelog entries\<close>

lemma map_tasks_ids:
  assumes step: "\<And>t k. k \<le> snd (f t k) \<and>
     (\<forall>e\<in>set (changelog (fst (f t k))).
        e \<in> set (changelog t) \<or> (\<exists>j. k \<le> j \<and> j < snd (f t k) \<and> c_id e = uuid j))"
  shows "n \<le> snd (map_tasks f ts n) \<and>
     (\<forall>t1\<in>set (fst (map_tasks f ts n)). \<forall>e\<in>set (changelog t1).
        (\<exists>t\<in>set ts. e \<in> set (changelog t))
        \<or> (\<exists>j. n \<le> j \<and> j < snd (map_tasks f ts n) \<and> c_id e = uuid j))"
proof (induction ts arbitrary: n)
  case Nil
  show ?case by simp
next
  case (Cons t ts)
  let ?n1 = "snd (f t n)"
  let ?r = "map_tasks f ts ?n1"
  from step [of n t] have h1: "n \<le> ?n1"
    and h2: "\<forall>e\<in>set (changelog (fst (f t n))).
        e \<in> set (changelog t) \<or> (\<exists>j. n \<le> j \<and> j < ?n1 \<and> c_id e = uuid j)"
    by simp_all
  from Cons.IH [of ?n1] have i1: "?n1 \<le> snd ?r"
    and i2: "\<forall>t1\<in>set (fst ?r). \<forall>e\<in>set (changelog t1).
        (\<exists>t\<in>set ts. e \<in> set (changelog t))
        \<or> (\<exists>j. ?n1 \<le> j \<and> j < snd ?r \<and> c_id e = uuid j)"
    by simp_all
  have eq: "map_tasks f (t # ts) n = (fst (f t n) # fst ?r, snd ?r)"
    by (simp add: split_beta Let_def)
  have a: "n \<le> snd (map_tasks f (t # ts) n)"
    unfolding eq using h1 i1 by simp
  have b: "(\<exists>t0\<in>set (t # ts). e \<in> set (changelog t0))
        \<or> (\<exists>j. n \<le> j \<and> j < snd (map_tasks f (t # ts) n) \<and> c_id e = uuid j)"
    if t1: "t1 \<in> set (fst (map_tasks f (t # ts) n))" and e: "e \<in> set (changelog t1)" for t1 e
  proof (cases "t1 = fst (f t n)")
    case True
    with h2 e have "e \<in> set (changelog t) \<or> (\<exists>j. n \<le> j \<and> j < ?n1 \<and> c_id e = uuid j)"
      by blast
    then show ?thesis
    proof
      assume "e \<in> set (changelog t)"
      then show ?thesis by auto
    next
      assume "\<exists>j. n \<le> j \<and> j < ?n1 \<and> c_id e = uuid j"
      then obtain j where "n \<le> j" "j < ?n1" "c_id e = uuid j" by blast
      with i1 have "n \<le> j \<and> j < snd (map_tasks f (t # ts) n) \<and> c_id e = uuid j"
        unfolding eq by simp
      then show ?thesis by blast
    qed
  next
    case False
    with t1 have "t1 \<in> set (fst ?r)" unfolding eq by simp
    with i2 e have "(\<exists>t\<in>set ts. e \<in> set (changelog t))
        \<or> (\<exists>j. ?n1 \<le> j \<and> j < snd ?r \<and> c_id e = uuid j)"
      by blast
    then show ?thesis
    proof
      assume "\<exists>t\<in>set ts. e \<in> set (changelog t)"
      then show ?thesis by auto
    next
      assume "\<exists>j. ?n1 \<le> j \<and> j < snd ?r \<and> c_id e = uuid j"
      then obtain j where "?n1 \<le> j" "j < snd ?r" "c_id e = uuid j" by blast
      with h1 have "n \<le> j \<and> j < snd (map_tasks f (t # ts) n) \<and> c_id e = uuid j"
        unfolding eq by simp
      then show ?thesis by blast
    qed
  qed
  from a b show ?case by blast
qed

lemma ids_drawn_map_tasks:
  assumes step: "\<And>t k. k \<le> snd (f t k) \<and>
     (\<forall>e\<in>set (changelog (fst (f t k))).
        e \<in> set (changelog t) \<or> (\<exists>j. k \<le> j \<and> j < snd (f t k) \<and> c_id e = uuid j))"
    and le: "uuid_count s \<le> n"
    and inv: "ids_drawn uuid s"
  shows "ids_drawn uuid \<lparr>tasks = fst (map_tasks f (tasks s) n), uuid_count = snd (map_tasks f (tasks s) n)\<rparr>"
proof -
  let ?r = "map_tasks f (tasks s) n"
  from map_tasks_ids [of f uuid n "tasks s", OF step]
  have c: "n \<le> snd ?r"
    and d: "\<forall>t1\<in>set (fst ?r). \<forall>e\<in>set (changelog t1).
        (\<exists>t\<in>set (tasks s). e \<in> set (changelog t))
        \<or> (\<exists>j. n \<le> j \<and> j < snd ?r \<and> c_id e = uuid j)"
    by simp_all
  have "\<exists>j<snd ?r. c_id e = uuid j"
    if "t1 \<in> set (fst ?r)" and "e \<in> set (changelog t1)" for t1 e
  proof -
    from d that have "(\<exists>t\<in>set (tasks s). e \<in> set (changelog t))
        \<or> (\<exists>j. n \<le> j \<and> j < snd ?r \<and> c_id e = uuid j)" by blast
    then show ?thesis
    proof
      assume "\<exists>t\<in>set (tasks s). e \<in> set (changelog t)"
      with inv obtain j where "j < uuid_count s" "c_id e = uuid j"
        unfolding ids_drawn_def by blast
      with le c have "j < snd ?r \<and> c_id e = uuid j" by simp
      then show ?thesis by blast
    next
      assume "\<exists>j. n \<le> j \<and> j < snd ?r \<and> c_id e = uuid j"
      then show ?thesis by blast
    qed
  qed
  then show ?thesis by (simp add: ids_drawn_def)
qed

lemma updateTask_body_ids:
  "k \<le> snd (updateTask_body uuid now p t k) \<and>
     (\<forall>e\<in>set (changelog (fst (updateTask_body uuid now p t k))).
        e \<in> set (changelog t)
        \<or> (\<exists>j. k \<le> j \<and> j < snd (updateTask_body uuid now p t k) \<and> c_id e = uuid j))"
  by (auto simp: updateTask_body_changelog updateTask_body_count in_set_enumerate_eq)

lemma ids_drawn_same_changelogs:
  assumes "ids_drawn uuid s" and "list_all2 (\<lambda>x y. changelog y = changelog x) (tasks s) ts"
  shows "ids_drawn uuid (s\<lparr>tasks := ts\<rparr>)"
proof -
  have "\<exists>j<uuid_count s. c_id e = uuid j" if "y \<in> set ts" "e \<in> set (changelog y)" for y e
  proof -
    from that(1) obtain i where i: "i < length ts" "ts ! i = y" by (auto simp: in_set_conv_nth)
    from assms(2) have l: "length (tasks s) = length ts" by (rule list_all2_lengthD)
    from list_all2_nthD2 [OF assms(2) i(1)]
    have "changelog (ts ! i) = changelog (tasks s ! i)" .
    with that(2) i l have "e \<in> set (changelog (tasks s ! i))" "tasks s ! i \<in> set (tasks s)"
      by simp_all
    with assms(1) show ?thesis unfolding ids_drawn_def by blast
  qed
  then show ?thesis by (simp add: ids_drawn_def)
qed

lemma apply_mutation_ids_drawn:
  assumes inv: "ids_drawn uuid s"
  shows "ids_drawn uuid (apply_mutation uuid (now, m) s)"
proof (cases m)
  case (UpdateTask ident p)
  have "ids_drawn uuid
     \<lparr>tasks = fst (map_tasks (\<lambda>t k. if task_id t \<noteq> ident then (t, k)
                                  else updateTask_body uuid now p t k) (tasks s) (uuid_count s)),
      uuid_count = snd (map_tasks (\<lambda>t k. if task_id t \<noteq> ident then (t, k)
                                  else updateTask_body uuid now p t k) (tasks s) (uuid_count s))\<rparr>"
    by (rule ids_drawn_map_tasks [OF _ _ inv]) (use updateTask_body_ids in auto)
  with UpdateTask show ?thesis by (simp add: updateTask_def split_beta)
next
  case (AddSubtask taskId subtask)
  have "ids_drawn uuid
     \<lparr>tasks = fst (map_tasks (\<lambda>task n. if task_id task \<noteq> taskId then (task, n)
                 else (task\<lparr>subtasks := subtasks task @ [subtask\<lparr>s_id := uuid n\<rparr>],
                            updatedAt := now\<rparr>, Suc n)) (tasks s) (uuid_count s)),
      uuid_count = snd (map_tasks (\<lambda>task n. if task_id task \<noteq> taskId then (task, n)
                 else (task\<lparr>subtasks := subtasks task @ [subtask\<lparr>s_id := uuid n\<rparr>],
                            updatedAt := now\<rparr>, Suc n)) (tasks s) (uuid_count s))\<rparr>"
    by (rule ids_drawn_map_tasks [OF _ _ inv]) auto
  with AddSubtask show ?thesis by (simp add: addSubtask_def split_beta)
next
  case (UpdateSubtask taskId subtaskId upds)
  then show ?thesis
    by (simp add: updateSubtask_def ids_drawn_same_changelogs [OF inv] map_rel)
next
  case (DeleteSubtask taskId subtaskId)
  then show ?thesis
    by (simp add: deleteSubtask_def ids_drawn_same_changelogs [OF inv] map_rel)
next
  case (ToggleSubtask taskId subtaskId)
  then show ?thesis
    by (simp add: toggleSubtask_def ids_drawn_same_changelogs [OF inv] map_rel)
next
  case (AddMilestone taskId milestone)
  have "ids_drawn uuid
     \<lparr>tasks = fst (map_tasks (\<lambda>task n. if task_id task \<noteq> taskId then (task, n)
                 else (task\<lparr>milestones := milestones task @ [milestone\<lparr>m_id := uuid n\<rparr>],
                            updatedAt := now\<rparr>, Suc n)) (tasks s) (uuid_count s)),
      uuid_count = snd (map_tasks (\<lambda>task n. if task_id task \<noteq> taskId then (task, n)
                 else (task\<lparr>milestones := milestones task @ [milestone\<lparr>m_id := uuid n\<rparr>],
                            updatedAt := now\<rparr>, Suc n)) (tasks s) (uuid_count s))\<rparr>"
    by (rule ids_drawn_map_tasks [OF _ _ inv]) auto
  with AddMilestone show ?thesis by (simp add: addMilestone_def split_beta)
next
  case (UpdateMilestone taskId milestoneId upds)
  then show ?thesis
    by (simp add: updateMilestone_def ids_drawn_same_changelogs [OF inv] map_rel)
next
  case (DeleteMilestone taskId milestoneId)
  then show ?thesis
    by (simp add: deleteMilestone_def ids_drawn_same_changelogs [OF inv] map_rel)
next
  case (AddUpdate taskId msg)
  let ?entry = "\<lparr>u_id = uuid (uuid_count s), u_timestamp = now, u_text = msg\<rparr>"
  let ?f = "\<lambda>task n. if task_id task \<noteq> taskId then (task, n)
                 else (let (e, n1) = makeChangelog uuid now ''update'' (Str []) (Str msg) n
                       in (task\<lparr>updates := ?entry # updates task, updatedAt := now,
                                 changelog := changelog task @ [e]\<rparr>, n1))"
  have "ids_drawn uuid
     \<lparr>tasks = fst (map_tasks ?f (tasks s) (Suc (uuid_count s))),
      uuid_count = snd (map_tasks ?f (tasks s) (Suc (uuid_count s)))\<rparr>"
    by (rule ids_drawn_map_tasks [OF _ _ inv]) (auto simp: makeChangelog_def)
  with AddUpdate show ?thesis by (simp add: addUpdate_def split_beta Let_def)
qed

lemma mutations_ids_drawn:
  "ids_drawn uuid s \<Longrightarrow> ids_drawn uuid (fold (apply_mutation uuid) ms s)"
proof (induction ms arbitrary: s)
  case Nil
  then show ?case by simp
next
  case (Cons m ms)
  obtain now op where m: "m = (now, op)" by (cases m)
  from Cons.prems have "ids_drawn uuid (apply_mutation uuid m s)"
    unfolding m by (rule apply_mutation_ids_drawn)
  then show ?case by (simp add: Cons.IH)
qed

lemma new_entry_ids:
  "map (c_id \<circ> (\<lambda>(j, a). \<lparr>c_id = uuid j, c_timestamp = now, c_field = key a,
                       c_oldValue = js_String (old_value t a),
                       c_newValue = js_String (new_value a)\<rparr>)) (enumerate k xs)
   = map uuid [k..<k + length xs]"
proof -
  have e: "c_id \<circ> (\<lambda>(j, a). \<lparr>c_id = uuid j, c_timestamp = now, c_field = key a,
                       c_oldValue = js_String (old_value t a),
                       c_newValue = js_String (new_value a)\<rparr>) = uuid \<circ> fst"
    by (auto simp: fun_eq_iff)
  have "map (uuid \<circ> fst) (enumerate k xs) = map uuid (map fst (enumerate k xs))"
    by (simp only: map_map)
  also have "\<dots> = map uuid [k..<k + length xs]"
    by (simp only: map_fst_enumerate)
  finally show ?thesis by (simp only: e)
qed

lemma updateTask_fresh_ids:
  assumes i: "i < length (tasks s)" and inj: "inj uuid" and inv: "ids_drawn uuid s"
  shows "let new = drop (length (changelog (tasks s ! i)))
                     (changelog (tasks (updateTask uuid now ident p s) ! i))
         in distinct (map c_id new)
            \<and> (\<forall>e\<in>set new. \<forall>t\<in>set (tasks s). c_id e \<notin> c_id ` set (changelog t))"
proof (cases "task_id (tasks s ! i) = ident")
  case False
  with updateTask_nth [OF i, of ident uuid now p] show ?thesis by simp
next
  case True
  let ?xs = "filter (\<lambda>a. key a \<noteq> ''updatedAt'') p"
  from True updateTask_nth [OF i, of ident uuid now p]
  obtain k where k: "uuid_count s \<le> k"
    and t1: "tasks (updateTask uuid now ident p s) ! i = fst (updateTask_body uuid now p (tasks s ! i) k)"
    by auto
  let ?new = "drop (length (changelog (tasks s ! i)))
                (changelog (tasks (updateTask uuid now ident p s) ! i))"
  have ids: "map c_id ?new = map uuid [k..<k + length ?xs]"
    by (simp add: t1 updateTask_body_changelog new_entry_ids)
  from inj have "inj_on uuid (set [k..<k + length ?xs])" by (rule inj_on_subset) simp
  then have d: "distinct (map c_id ?new)" by (simp add: ids distinct_map)
  have f: "c_id e \<notin> c_id ` set (changelog t)" if e: "e \<in> set ?new" and t: "t \<in> set (tasks s)" for e t
  proof
    assume "c_id e \<in> c_id ` set (changelog t)"
    then obtain e0 where e0: "e0 \<in> set (changelog t)" "c_id e = c_id e0" by blast
    with inv t obtain j0 where j0: "j0 < uuid_count s" "c_id e0 = uuid j0"
      unfolding ids_drawn_def by blast
    from e have "c_id e \<in> set (map c_id ?new)" by simp
    then obtain j where j: "k \<le> j" "c_id e = uuid j" unfolding ids by auto
    from e0 j0 j have "uuid j = uuid j0" by simp
    with inj have "j = j0" by (simp add: inj_eq)
    with k j j0 show False by simp
  qed
  from d f show ?thesis unfolding Let_def by blast
qed

text \<open>
  Claim C6. For the task that \<^verbatim>\<open>updateTask\<close> matches, the new changelog is the old one followed
  by one entry per entry of the patch other than \<^verbatim>\<open>updatedAt\<close>, in the order of the patch; the
  entry holds an identifier drawn from the generator (the draws \<open>k\<close>, \<open>k + 1\<close>, ... made after
  all earlier ones), the current instant, the key, and the texts of the task's prior value
  and of the new value. A task that does not match is left as it is. When the generator
  never repeats an identifier and every identifier in the store was drawn from it, the new
  identifiers differ from one another and from every identifier already in a changelog of
  the store, and that bookkeeping holds again after any sequence of mutations. Across every
  sequence of mutations the collection keeps its length, the task at a position keeps its
  id, its changelog does not get shorter, and the entries it had stay in place, unchanged.
\<close>

theorem changelog_append_only:
  assumes "i < length (tasks s)"
  shows
  "(task_id (tasks s ! i) = ident \<longrightarrow>
     (\<exists>k\<ge>uuid_count s.
        changelog (tasks (updateTask uuid now ident p s) ! i)
          = changelog (tasks s ! i)
            @ map (\<lambda>(j, a). \<lparr>c_id = uuid j, c_timestamp = now, c_field = key a,
                      c_oldValue = js_String (old_value (tasks s ! i) a),
                      c_newValue = js_String (new_value a)\<rparr>)
                (enumerate k (filter (\<lambda>a. key a \<noteq> ''updatedAt'') p))))
   \<and> (task_id (tasks s ! i) \<noteq> ident \<longrightarrow> tasks (updateTask uuid now ident p s) ! i = tasks s ! i)
   \<and> (inj uuid \<and> ids_drawn uuid s \<longrightarrow>
        (let new = drop (length (changelog (tasks s ! i)))
                     (changelog (tasks (updateTask uuid now ident p s) ! i))
         in distinct (map c_id new)
            \<and> (\<forall>e\<in>set new. \<forall>t\<in>set (tasks s). c_id e \<notin> c_id ` set (changelog t))))
   \<and> (ids_drawn uuid s \<longrightarrow> ids_drawn uuid (fold (apply_mutation uuid) ms s))
   \<and> length (tasks (fold (apply_mutation uuid) ms s)) = length (tasks s)
   \<and> task_id (tasks (fold (apply_mutation uuid) ms s) ! i) = task_id (tasks s ! i)
   \<and> length (changelog (tasks s ! i))
       \<le> length (changelog (tasks (fold (apply_mutation uuid) ms s) ! i))
   \<and> take (length (changelog (tasks s ! i)))
        (changelog (tasks (fold (apply_mutation uuid) ms s) ! i)) = changelog (tasks s ! i)"
proof -
  let ?s1 = "updateTask uuid now ident p s"
  let ?s2 = "fold (apply_mutation uuid) ms s"
  have a: "task_id (tasks s ! i) = ident \<longrightarrow>
     (\<exists>k\<ge>uuid_count s.
        changelog (tasks ?s1 ! i)
          = changelog (tasks s ! i)
            @ map (\<lambda>(j, a). \<lparr>c_id = uuid j, c_timestamp = now, c_field = key a,
                      c_oldValue = js_String (old_value (tasks s ! i) a),
                      c_newValue = js_String (new_value a)\<rparr>)
                (enumerate k (filter (\<lambda>a. key a \<noteq> ''updatedAt'') p)))"
  proof
    assume "task_id (tasks s ! i) = ident"
    with updateTask_nth [OF assms, of ident uuid now p]
    obtain k where "uuid_count s \<le> k"
      "tasks ?s1 ! i = fst (updateTask_body uuid now p (tasks s ! i) k)"
      by auto
    then show "\<exists>k\<ge>uuid_count s.
        changelog (tasks ?s1 ! i)
          = changelog (tasks s ! i)
            @ map (\<lambda>(j, a). \<lparr>c_id = uuid j, c_timestamp = now, c_field = key a,
                      c_oldValue = js_String (old_value (tasks s ! i) a),
                      c_newValue = js_String (new_value a)\<rparr>)
                (enumerate k (filter (\<lambda>a. key a \<noteq> ''updatedAt'') p))"
      using updateTask_body_changelog by metis
  qed
  have b: "task_id (tasks s ! i) \<noteq> ident \<longrightarrow> tasks ?s1 ! i = tasks s ! i"
    using updateTask_nth [OF assms, of ident uuid now p] by simp
  have c: "inj uuid \<and> ids_drawn uuid s \<longrightarrow>
        (let new = drop (length (changelog (tasks s ! i))) (changelog (tasks ?s1 ! i))
         in distinct (map c_id new)
            \<and> (\<forall>e\<in>set new. \<forall>t\<in>set (tasks s). c_id e \<notin> c_id ` set (changelog t)))"
    using updateTask_fresh_ids [OF assms] by blast
  have d: "ids_drawn uuid s \<longrightarrow> ids_drawn uuid ?s2"
    by (simp add: mutations_ids_drawn)
  have g: "list_all2 grows (tasks s) (tasks ?s2)" by (rule mutations_grow)
  then have e: "length (tasks ?s2) = length (tasks s)" by (simp add: list_all2_lengthD)
  from list_all2_nthD [OF g assms] have "grows (tasks s ! i) (tasks ?s2 ! i)" .
  then have f: "task_id (tasks ?s2 ! i) = task_id (tasks s ! i)"
    and pre: "prefix (changelog (tasks s ! i)) (changelog (tasks ?s2 ! i))"
    by (simp_all add: grows_def)
  from pre have h: "length (changelog (tasks s ! i)) \<le> length (changelog (tasks ?s2 ! i))"
    by (rule prefix_length_le)
  from pre have t: "take (length (changelog (tasks s ! i))) (changelog (tasks ?s2 ! i))
                    = changelog (tasks s ! i)"
    by (auto simp: prefix_def)
  from a b c d e f h t show ?thesis by blast
qed

subsection \<open>Targets that are not there\<close>

lemma store_eq: "\<lparr>tasks = tasks s, uuid_count = uuid_count s\<rparr> = (s :: store)"
  by simp

lemma updateTask_absent:
  assumes "ident \<notin> task_id ` set (tasks s)"
  shows "updateTask uuid now ident p s = s"
proof -
  have "map_tasks (\<lambda>t k. if task_id t \<noteq> ident then (t, k) else updateTask_body uuid now p t k)
          (tasks s) (uuid_count s) = (tasks s, uuid_count s)"
    by (rule map_tasks_unmatched) (use assms in auto)
  then show ?thesis by (simp add: updateTask_def)
qed

lemma map_absent:
  assumes "ident \<notin> task_id ` set ts"
  shows "map (\<lambda>t. if task_id t \<noteq> ident then t else g t) ts = ts"
  by (rule map_idI) (use assms in auto)

lemma store_tasks_same: "s\<lparr>tasks := tasks s\<rparr> = (s :: store)"
  by simp

text \<open>
  Claim C9, as amended. With a task id that no task of the collection has, \<^verbatim>\<open>updateTask\<close>,
  \<^verbatim>\<open>deleteTask\<close>, \<^verbatim>\<open>updateSubtask\<close>, \<^verbatim>\<open>deleteSubtask\<close>, \<^verbatim>\<open>updateMilestone\<close> and
  \<^verbatim>\<open>deleteMilestone\<close> return the store as it was. With the id of a task that is there and a
  subtask id (milestone id) that none of its subtasks (milestones) has, the subtask and
  milestone operations change nothing but \<open>updatedAt\<close> of that task, which becomes the
  current instant. The operations are total: none of them has an error result.
\<close>

theorem absent_target_quiet:
  "(ident \<notin> task_id ` set (tasks s) \<longrightarrow>
      updateTask uuid now ident p s = s \<and> deleteTask ident s = s
      \<and> updateSubtask now ident sid sp s = s \<and> deleteSubtask now ident sid s = s
      \<and> updateMilestone now ident mid mp s = s \<and> deleteMilestone now ident mid s = s)
   \<and> ((\<forall>t\<in>set (tasks s). task_id t = ident \<longrightarrow> sid \<notin> s_id ` set (subtasks t)) \<longrightarrow>
      updateSubtask now ident sid sp s
        = s\<lparr>tasks := map (\<lambda>t. if task_id t = ident then t\<lparr>updatedAt := now\<rparr> else t) (tasks s)\<rparr>
      \<and> deleteSubtask now ident sid s
        = s\<lparr>tasks := map (\<lambda>t. if task_id t = ident then t\<lparr>updatedAt := now\<rparr> else t) (tasks s)\<rparr>)
   \<and> ((\<forall>t\<in>set (tasks s). task_id t = ident \<longrightarrow> mid \<notin> m_id ` set (milestones t)) \<longrightarrow>
      updateMilestone now ident mid mp s
        = s\<lparr>tasks := map (\<lambda>t. if task_id t = ident then t\<lparr>updatedAt := now\<rparr> else t) (tasks s)\<rparr>
      \<and> deleteMilestone now ident mid s
        = s\<lparr>tasks := map (\<lambda>t. if task_id t = ident then t\<lparr>updatedAt := now\<rparr> else t) (tasks s)\<rparr>)"
proof -
  have a: "updateTask uuid now ident p s = s \<and> deleteTask ident s = s
      \<and> updateSubtask now ident sid sp s = s \<and> deleteSubtask now ident sid s = s
      \<and> updateMilestone now ident mid mp s = s \<and> deleteMilestone now ident mid s = s"
    if h: "ident \<notin> task_id ` set (tasks s)"
  proof -
    have "filter (\<lambda>t. task_id t \<noteq> ident) (tasks s) = tasks s"
      using h by (auto simp: filter_id_conv)
    then have "deleteTask ident s = s" by (simp add: deleteTask_def)
    with h show ?thesis
      by (simp add: updateTask_absent updateSubtask_def deleteSubtask_def updateMilestone_def
          deleteMilestone_def map_absent)
  qed
  have b: "updateSubtask now ident sid sp s
        = s\<lparr>tasks := map (\<lambda>t. if task_id t = ident then t\<lparr>updatedAt := now\<rparr> else t) (tasks s)\<rparr>
      \<and> deleteSubtask now ident sid s
        = s\<lparr>tasks := map (\<lambda>t. if task_id t = ident then t\<lparr>updatedAt := now\<rparr> else t) (tasks s)\<rparr>"
    if h: "\<forall>t\<in>set (tasks s). task_id t = ident \<longrightarrow> sid \<notin> s_id ` set (subtasks t)"
  proof -
    have m: "map (\<lambda>x. if s_id x = sid then merge_subtask x sp else x) (subtasks t) = subtasks t"
      if "t \<in> set (tasks s)" "task_id t = ident" for t
      by (rule map_idI) (use h that in auto)
    have f: "filter (\<lambda>x. s_id x \<noteq> sid) (subtasks t) = subtasks t"
      if "t \<in> set (tasks s)" "task_id t = ident" for t
      using h that by (auto simp: filter_id_conv)
    show ?thesis
      by (auto simp: updateSubtask_def deleteSubtask_def m f)
  qed
  have c: "updateMilestone now ident mid mp s
        = s\<lparr>tasks := map (\<lambda>t. if task_id t = ident then t\<lparr>updatedAt := now\<rparr> else t) (tasks s)\<rparr>
      \<and> deleteMilestone now ident mid s
        = s\<lparr>tasks := map (\<lambda>t. if task_id t = ident then t\<lparr>updatedAt := now\<rparr> else t) (tasks s)\<rparr>"
    if h: "\<forall>t\<in>set (tasks s). task_id t = ident \<longrightarrow> mid \<notin> m_id ` set (milestones t)"
  proof -
    have m: "map (\<lambda>x. if m_id x = mid then merge_milestone x mp else x) (milestones t) = milestones t"
      if "t \<in> set (tasks s)" "task_id t = ident" for t
      by (rule map_idI) (use h that in auto)
    have f: "filter (\<lambda>x. m_id x \<noteq> mid) (milestones t) = milestones t"
      if "t \<in> set (tasks s)" "task_id t = ident" for t
      using h that by (auto simp: filter_id_conv)
    show ?thesis
      by (auto simp: updateMilestone_def deleteMilestone_def m f)
  qed
  from a b c show ?thesis by blast
qed

subsection \<open>Unlinking the tasks of a deleted project\<close>

lemma unlink_body:
  "fst (updateTask_body uuid now [Set_projectId None] t k)
   = t\<lparr>projectId := None, updatedAt := now,
       changelog := changelog t @
         [\<lparr>c_id = uuid k, c_timestamp = now, c_field = ''projectId'',
           c_oldValue = js_String (opt_value Str (projectId t)), c_newValue = []\<rparr>]\<rparr>"
  by (simp add: updateTask_body_def makeChangelog_def opt_value_def)

lemma fold_updateTask_all2:
  assumes "distinct (map task_id ps)"
    and "task_id ` set ps \<inter> D = {}"
    and "list_all2 (\<lambda>x y. if task_id x \<in> D
                           then \<exists>k. y = fst (updateTask_body uuid now p x k) else y = x)
           ts (tasks s)"
  shows "list_all2 (\<lambda>x y. if task_id x \<in> D \<union> task_id ` set ps
                           then \<exists>k. y = fst (updateTask_body uuid now p x k) else y = x)
           ts (tasks (fold (\<lambda>t. updateTask uuid now (task_id t) p) ps s))"
  using assms
proof (induction ps arbitrary: s D)
  case Nil
  then show ?case by simp
next
  case (Cons q ps)
  let ?s1 = "updateTask uuid now (task_id q) p s"
  let ?D1 = "insert (task_id q) D"
  from Cons.prems have q: "task_id q \<notin> D" by auto
  have step: "list_all2 (\<lambda>x y. if task_id x \<in> ?D1
                           then \<exists>k. y = fst (updateTask_body uuid now p x k) else y = x)
           ts (tasks ?s1)"
  proof (rule list_all2_trans [OF _ Cons.prems(3) updateTask_all2])
    fix x y z
    assume xy: "if task_id x \<in> D then \<exists>k. y = fst (updateTask_body uuid now p x k) else y = x"
      and yz: "if task_id y \<noteq> task_id q then z = y
               else \<exists>k\<ge>uuid_count s. z = fst (updateTask_body uuid now p y k)"
    from xy have ident: "task_id y = task_id x" by (auto split: if_splits)
    show "if task_id x \<in> ?D1 then \<exists>k. z = fst (updateTask_body uuid now p x k) else z = x"
    proof (cases "task_id x = task_id q")
      case True
      with q xy have "y = x" by simp
      with True yz show ?thesis by auto
    next
      case False
      with ident yz have "z = y" by simp
      with False xy show ?thesis by simp
    qed
  qed
  from Cons.prems have d: "distinct (map task_id ps)" and i: "task_id ` set ps \<inter> ?D1 = {}"
    by auto
  from Cons.IH [OF d i step] show ?case by simp
qed

lemma distinct_filter_ids:
  "distinct (map task_id ts) \<Longrightarrow> distinct (map task_id (filter P ts))"
  by (rule distinct_map_filter)

lemma distinct_same_id:
  assumes "distinct (map task_id ts)" "x \<in> set ts" "y \<in> set ts" "task_id x = task_id y"
  shows "x = y"
  using assms by (meson distinct_map inj_onD)

text \<open>
  Claim C10, as amended. When the task ids of the collection are distinct, deleting a project
  through the panel removes the projects with that id and no other, keeps every task at its
  place, leaves the tasks that did not reference the project as they were, and changes a
  task that referenced it in three fields only: \<open>projectId\<close> is cleared, \<open>updatedAt\<close> becomes the
  current instant, and the changelog gains one entry for the field \<^verbatim>\<open>projectId\<close>, from the
  project's id to the empty text.
\<close>

theorem handleDelete_unlinks:
  assumes "distinct (map task_id (tasks (task_store a)))"
  shows "projects (handleDelete uuid now pid a) = filter (\<lambda>p. p_id p \<noteq> pid) (projects a)
   \<and> length (tasks (task_store (handleDelete uuid now pid a))) = length (tasks (task_store a))
   \<and> (\<forall>i<length (tasks (task_store a)).
        (let t = tasks (task_store a) ! i;
             t1 = tasks (task_store (handleDelete uuid now pid a)) ! i
         in if projectId t = Some pid
            then \<exists>k. t1 = t\<lparr>projectId := None, updatedAt := now,
                            changelog := changelog t @
                              [\<lparr>c_id = uuid k, c_timestamp = now, c_field = ''projectId'',
                                c_oldValue = pid, c_newValue = []\<rparr>]\<rparr>
            else t1 = t))"
proof -
  let ?ts = "tasks (task_store a)"
  let ?ps = "filter (\<lambda>t. projectId t = Some pid) ?ts"
  let ?s1 = "fold (\<lambda>t. updateTask uuid now (task_id t) [Set_projectId None]) ?ps (task_store a)"
  have ts1: "task_store (handleDelete uuid now pid a) = ?s1"
    by (simp add: handleDelete_def)
  have pr: "projects (handleDelete uuid now pid a) = filter (\<lambda>p. p_id p \<noteq> pid) (projects a)"
    by (simp add: handleDelete_def deleteProject_def)
  have "list_all2 (\<lambda>x y. if task_id x \<in> {} \<union> task_id ` set ?ps
                           then \<exists>k. y = fst (updateTask_body uuid now [Set_projectId None] x k)
                           else y = x) ?ts (tasks ?s1)"
    by (rule fold_updateTask_all2) (simp_all add: assms distinct_filter_ids list_all2_same)
  then have rel: "list_all2 (\<lambda>x y. if task_id x \<in> task_id ` set ?ps
                           then \<exists>k. y = fst (updateTask_body uuid now [Set_projectId None] x k)
                           else y = x) ?ts (tasks ?s1)"
    by simp
  then have len: "length (tasks ?s1) = length ?ts" by (simp add: list_all2_lengthD)
  have each: "let t = ?ts ! i; t1 = tasks ?s1 ! i
         in if projectId t = Some pid
            then \<exists>k. t1 = t\<lparr>projectId := None, updatedAt := now,
                            changelog := changelog t @
                              [\<lparr>c_id = uuid k, c_timestamp = now, c_field = ''projectId'',
                                c_oldValue = pid, c_newValue = []\<rparr>]\<rparr>
            else t1 = t" if i: "i < length ?ts" for i
  proof -
    from i have mem: "?ts ! i \<in> set ?ts" by simp
    have iff: "task_id (?ts ! i) \<in> task_id ` set ?ps \<longleftrightarrow> projectId (?ts ! i) = Some pid"
    proof
      assume "task_id (?ts ! i) \<in> task_id ` set ?ps"
      then obtain q where q: "q \<in> set ?ts" "projectId q = Some pid" "task_id (?ts ! i) = task_id q"
        by auto
      with distinct_same_id [OF assms mem q(1)] show "projectId (?ts ! i) = Some pid" by simp
    next
      assume "projectId (?ts ! i) = Some pid"
      with mem show "task_id (?ts ! i) \<in> task_id ` set ?ps" by auto
    qed
    from list_all2_nthD [OF rel i] iff
    have "if projectId (?ts ! i) = Some pid
          then \<exists>k. tasks ?s1 ! i = fst (updateTask_body uuid now [Set_projectId None] (?ts ! i) k)
          else tasks ?s1 ! i = ?ts ! i"
      by simp
    then show ?thesis
      by (auto simp: Let_def unlink_body opt_value_def)
  qed
  from pr len each show ?thesis unfolding ts1 by blast
qed

section \<open>Properties of the recurrence engine\<close>

subsection \<open>The driving rule of the recurrence engine\<close>

lemma format_ymd_nonempty: "format_ymd d = Inr str \<Longrightarrow> str \<noteq> []"
  by (auto simp: format_ymd_def Let_def split: option.splits)

lemma format_ymd_Inr: "d \<noteq> None \<Longrightarrow> \<exists>str. format_ymd d = Inr str"
  by (auto simp: format_ymd_def Let_def split: option.splits)

lemma nextDueDate_parsed:
  assumes "parseISO current \<noteq> None"
  shows "\<exists>str. nextDueDate current pat ival = Inr str"
proof -
  from assms obtain x where x: "parseISO current = Some x" by auto
  define nxt where "nxt =
            (if pat = ''Daily'' then addDays (Some x) ival
             else if pat = ''Weekly'' then addWeeks (Some x) ival
             else if pat = ''Bi-weekly'' then addWeeks (Some x) (2 * ival)
             else if pat = ''Monthly'' then addMonths (Some x) ival
             else if pat = ''Quarterly'' then addQuarters (Some x) ival
             else if pat = ''Custom'' then addDays (Some x) ival
             else addWeeks (Some x) 1)"
  have "nxt \<noteq> None"
    unfolding nxt_def by (simp add: addDays_def addMonths_def addWeeks_def addQuarters_def)
  then have "\<exists>str. format_ymd nxt = Inr str" by (rule format_ymd_Inr)
  moreover have "nextDueDate current pat ival = format_ymd nxt"
    unfolding nextDueDate_def Let_def x nxt_def ..
  ultimately show ?thesis by simp
qed

lemma generateNextInstance_cases:
  assumes "isRecurring t" "recurrence t = Some r"
  shows "(\<exists>e. nextDueDate (dueDate t) (pattern r) (interval r) = Inl e
              \<and> generateNextInstance now t = Inl e)
       \<or> (\<exists>newDue. nextDueDate (dueDate t) (pattern r) (interval r) = Inr newDue
              \<and> newDue \<noteq> []
              \<and> generateNextInstance now t =
                  Inr [Set_dueDate newDue, Set_status NotStarted, Set_completedAt None,
                       Set_updates [],
                       Set_subtasks (map (\<lambda>x. x\<lparr>s_status := Open\<rparr>) (subtasks t)),
                       Set_recurrence
                         (Some (r\<lparr>lastCompleted := Some now, nextDue := Some newDue,
                                  cycleCount := cycleCount r + 1\<rparr>))])"
proof (cases "nextDueDate (dueDate t) (pattern r) (interval r)")
  case (Inl e)
  with assms show ?thesis by (simp add: generateNextInstance_def)
next
  case (Inr newDue)
  then have "newDue \<noteq> []"
    unfolding nextDueDate_def Let_def by (rule format_ymd_nonempty)
  with Inr assms show ?thesis by (simp add: generateNextInstance_def)
qed







lemma generateNextInstance_due:
  assumes "due_for_regeneration r" "parseISO (dueDate r) \<noteq> None"
  shows "\<exists>p. generateNextInstance now r = Inr p"
proof -
  from assms(1) obtain rc where rc: "isRecurring r" "recurrence r = Some rc"
    by (auto simp: due_for_regeneration_def)
  from nextDueDate_parsed [OF assms(2), of "pattern rc" "interval rc"]
    generateNextInstance_cases [OF rc, of now]
  show ?thesis by auto
qed





section \<open>Properties of the alert engine\<close>

subsection \<open>Alerts\<close>

lemma computeAlerts_append:
  "computeAlerts now (xs @ ys) = computeAlerts now xs @ computeAlerts now ys"
  by (induction xs) simp_all

lemma milestone_alerts_concat:
  "milestone_alerts now task mss =
     concat (map (\<lambda>ms.
        if m_status ms = Achieved \<or> m_status ms = Missed then []
        else if \<not> isBefore (setHours0 (parseISO (m_targetDate ms))) (setHours0 (Some now))
                \<and> isAfter (addDays (setHours0 (Some now)) 3) (setHours0 (parseISO (m_targetDate ms)))
        then [\<lparr>a_id = alertId ''milestone-due-soon'' (task_id task) (Some (m_id ms)),
               a_type = MilestoneDueSoon,
               a_taskId = task_id task, a_taskTitle = title task,
               a_milestoneId = Some (m_id ms), a_milestoneName = Some (m_name ms),
               a_date = m_targetDate ms\<rparr>]
        else []) mss)"
  by (induction mss) (simp_all add: Let_def)

lemma due_date_alerts_cases:
  "due_date_alerts now task = [] \<or>
   (\<exists>ty\<in>{Overdue, DueToday, AtRisk}.
      due_date_alerts now task =
        [\<lparr>a_id = AlertType_text ty @ '':'' @ task_id task, a_type = ty,
          a_taskId = task_id task, a_taskTitle = title task,
          a_milestoneId = None, a_milestoneName = None, a_date = dueDate task\<rparr>])"
  unfolding due_date_alerts_def Let_def alertId_def by simp

lemma due_date_alerts_types:
  assumes "a \<in> set (due_date_alerts now task)"
  shows "a_type a \<noteq> MilestoneDueSoon \<and> a_milestoneId a = None \<and> a_taskId a = task_id task
   \<and> a_id a = AlertType_text (a_type a) @ '':'' @ task_id task"
  using due_date_alerts_cases [of now task] assms by auto

lemma alertId_None: "alertId ty tid None = ty @ '':'' @ tid"
  by (simp add: alertId_def)

lemma alertId_Some:
  "alertId ty tid (Some m) = (if m = [] then ty @ '':'' @ tid else ty @ '':'' @ tid @ '':'' @ m)"
  by (simp add: alertId_def)

lemma milestone_alerts_types:
  "a \<in> set (milestone_alerts now task mss) \<Longrightarrow>
   a_type a = MilestoneDueSoon \<and> a_taskId a = task_id task
   \<and> (\<exists>m. a_milestoneId a = Some m
          \<and> a_id a = (if m = [] then ''milestone-due-soon'' @ '':'' @ task_id task
                      else ''milestone-due-soon'' @ '':'' @ task_id task @ '':'' @ m))"
proof (induction mss)
  case Nil
  then show ?case by simp
next
  case (Cons ms rest)
  let ?emit = "\<not> (m_status ms = Achieved \<or> m_status ms = Missed)
      \<and> \<not> isBefore (setHours0 (parseISO (m_targetDate ms))) (setHours0 (Some now))
      \<and> isAfter (addDays (setHours0 (Some now)) 3) (setHours0 (parseISO (m_targetDate ms)))"
  let ?item = "\<lparr>a_id = alertId ''milestone-due-soon'' (task_id task) (Some (m_id ms)),
               a_type = MilestoneDueSoon,
               a_taskId = task_id task, a_taskTitle = title task,
               a_milestoneId = Some (m_id ms), a_milestoneName = Some (m_name ms),
               a_date = m_targetDate ms\<rparr>"
  show ?case
  proof (cases ?emit)
    case False
    then have "milestone_alerts now task (ms # rest) = milestone_alerts now task rest"
      by (auto simp: Let_def)
    with Cons show ?thesis by simp
  next
    case True
    then have "milestone_alerts now task (ms # rest) = ?item # milestone_alerts now task rest"
      by (simp add: Let_def)
    with Cons.prems have "a = ?item \<or> a \<in> set (milestone_alerts now task rest)" by simp
    then show ?thesis
    proof
      assume "a = ?item"
      then show ?thesis by (simp add: alertId_Some)
    next
      assume "a \<in> set (milestone_alerts now task rest)"
      then show ?thesis by (rule Cons.IH)
    qed
  qed
qed

lemma date_only:
  "isBefore (setHours0 (Some x)) (setHours0 (Some y)) = date_less (cal x) (cal y)"
  "isAfter (setHours0 (Some x)) (setHours0 (Some y)) = date_less (cal y) (cal x)"
  "isAfter (addDays (setHours0 (Some x)) k) (setHours0 (Some y)) = date_less (cal y) (shift_days (cal x) k)"
  "isAfter (setHours0 (Some x)) (addDays (setHours0 (Some y)) k) = date_less (shift_days (cal y) k) (cal x)"
  by (simp_all add: isBefore_def isAfter_def setHours0_def addDays_def jsdate_less_def)

lemma length_due_date_alerts: "length (due_date_alerts now task) \<le> 1"
  by (simp add: due_date_alerts_def Let_def)

lemmas alert_eval =
  due_date_alerts_def alertId_def reminder_or_2_def Let_def ex_now_def ex_open_task_def
  ex_blank_task_def ex_task_def calendar_defs datefns_defs text_defs


lemma ex_open_due:
  "due_date_alerts ex_now ex_open_task =
     [\<lparr>a_id = ''at-risk:T1'', a_type = AtRisk, a_taskId = ''T1'',
       a_taskTitle = ''Monthly report'', a_milestoneId = None,
       a_milestoneName = None, a_date = ''2024-06-16''\<rparr>]"
  by (simp add: alert_eval)

lemma ex_open_milestones:
  "milestone_alerts ex_now ex_open_task (milestones ex_open_task) =
     [\<lparr>a_id = ''milestone-due-soon:T1:M1'', a_type = MilestoneDueSoon,
       a_taskId = ''T1'', a_taskTitle = ''Monthly report'',
       a_milestoneId = Some ''M1'', a_milestoneName = Some ''Sign-off'',
       a_date = ''2024-06-17''\<rparr>]"
  by (simp add: alert_eval)

lemma ex_open_not_after:
  "\<not> isAfter (setHours0 (Some ex_now)) (addDays (setHours0 (parseISO (dueDate ex_open_task))) (- 0))"
  by (simp add: alert_eval)


text \<open>
  Claim C4. A task emits at most one due-date alert; a Complete or Cancelled task emits no
  alert at all; otherwise the alert is \<^verbatim>\<open>overdue\<close> when the due date is before today, else
  \<^verbatim>\<open>due-today\<close> when it is today, else \<^verbatim>\<open>at-risk\<close> when the priority is Critical or High, today
  is after the due date minus the reminder window and the due date is not before today. The
  window is \<open>reminderDays\<close>, except that the code takes 2 both when \<open>reminderDays\<close> is unset
  and when it is 0. On 15 June 2024, the Critical task due on 16 June with
  \<open>reminderDays = 0\<close> gets an \<^verbatim>\<open>at-risk\<close> alert although today is not after the due date
  minus 0 days.
\<close>

theorem due_date_alert_rules:
  "length (due_date_alerts now task) \<le> 1
   \<and> (status task = Complete \<or> status task = Cancelled \<longrightarrow> computeAlerts now [task] = [])
   \<and> (let today = setHours0 (Some now);
           due = setHours0 (parseISO (dueDate task));
           window = (case reminderDays task of None \<Rightarrow> 2 | Some r \<Rightarrow> if r = 0 then 2 else r)
       in map a_type (due_date_alerts now task) =
            (if isBefore due today then [Overdue]
             else if isToday now due then [DueToday]
             else if (priority task = Critical \<or> priority task = High)
                     \<and> isAfter today (addDays due (- window)) \<and> \<not> isBefore due today
               then [AtRisk]
             else []))
   \<and> reminderDays ex_open_task = Some 0
   \<and> map a_type (due_date_alerts ex_now ex_open_task) = [AtRisk]
   \<and> \<not> isAfter (setHours0 (Some ex_now))
          (addDays (setHours0 (parseISO (dueDate ex_open_task))) (- 0))"
proof -
  have a: "status task = Complete \<or> status task = Cancelled \<longrightarrow> computeAlerts now [task] = []"
    by simp
  have b: "let today = setHours0 (Some now);
           due = setHours0 (parseISO (dueDate task));
           window = (case reminderDays task of None \<Rightarrow> 2 | Some r \<Rightarrow> if r = 0 then 2 else r)
       in map a_type (due_date_alerts now task) =
            (if isBefore due today then [Overdue]
             else if isToday now due then [DueToday]
             else if (priority task = Critical \<or> priority task = High)
                     \<and> isAfter today (addDays due (- window)) \<and> \<not> isBefore due today
               then [AtRisk]
             else [])"
    by (simp add: due_date_alerts_def reminder_or_2_def Let_def)
  have c: "reminderDays ex_open_task = Some 0"
    by (simp add: ex_open_task_def)
  have d: "map a_type (due_date_alerts ex_now ex_open_task) = [AtRisk]"
    by (simp add: ex_open_due)
  from length_due_date_alerts [of now task] a b c d ex_open_not_after show ?thesis
    by blast
qed

theorem due_date_alert_rules_witness:
  "status ex_task = Complete
   \<and> computeAlerts ex_now [ex_task] = []
   \<and> length (due_date_alerts ex_now ex_open_task) \<le> 1
   \<and> map a_type (due_date_alerts ex_now ex_open_task) = [AtRisk]"
proof -
  have s: "status ex_task = Complete" by (simp add: ex_task_def)
  from due_date_alert_rules [of ex_now ex_task] s
  have "computeAlerts ex_now [ex_task] = []" by blast
  with s due_date_alert_rules [of ex_now ex_open_task] show ?thesis by blast
qed

text \<open>
  Claim C5. The milestone alerts of a task are, milestone by milestone in order, one
  \<^verbatim>\<open>milestone-due-soon\<close> alert carrying the milestone's id and name for each milestone that is
  neither Achieved nor Missed, whose target date is not before today and is before today
  plus 3 days, and nothing for any other milestone. For a task that is neither Complete nor
  Cancelled they are in the result of \<^verbatim>\<open>computeAlerts\<close> right after the task's due-date alerts,
  whatever those are, and no due-date alert has the type \<^verbatim>\<open>milestone-due-soon\<close>. The comparison
  reads calendar dates only, and an unparseable target date gives no alert. On 15 June 2024
  a milestone for 17 June gives an alert and one for 19 June gives none.
\<close>

theorem milestone_due_soon_rule:
  "milestone_alerts now task mss =
     concat (map (\<lambda>ms.
        if m_status ms = Achieved \<or> m_status ms = Missed then []
        else if \<not> isBefore (setHours0 (parseISO (m_targetDate ms))) (setHours0 (Some now))
                \<and> isAfter (addDays (setHours0 (Some now)) 3) (setHours0 (parseISO (m_targetDate ms)))
        then [\<lparr>a_id = alertId ''milestone-due-soon'' (task_id task) (Some (m_id ms)),
               a_type = MilestoneDueSoon,
               a_taskId = task_id task, a_taskTitle = title task,
               a_milestoneId = Some (m_id ms), a_milestoneName = Some (m_name ms),
               a_date = m_targetDate ms\<rparr>]
        else []) mss)
   \<and> (status task \<noteq> Complete \<and> status task \<noteq> Cancelled \<longrightarrow>
        computeAlerts now (pre @ task # post) =
          computeAlerts now pre @ due_date_alerts now task
            @ milestone_alerts now task (milestones task) @ computeAlerts now post)
   \<and> (\<forall>a\<in>set (due_date_alerts now task). a_type a \<noteq> MilestoneDueSoon)
   \<and> (\<forall>a\<in>set (milestone_alerts now task mss). a_type a = MilestoneDueSoon)
   \<and> (\<forall>x. parseISO target = Some x \<longrightarrow>
         (\<not> isBefore (setHours0 (parseISO target)) (setHours0 (Some now))
          \<and> isAfter (addDays (setHours0 (Some now)) 3) (setHours0 (parseISO target)))
         = (\<not> date_less (cal x) (cal now) \<and> date_less (cal x) (shift_days (cal now) 3)))
   \<and> (parseISO target = None \<longrightarrow>
         \<not> isAfter (addDays (setHours0 (Some now)) 3) (setHours0 (parseISO target)))
   \<and> map m_targetDate (milestones ex_open_task) = [''2024-06-17'', ''2024-06-19'']
   \<and> map a_date (milestone_alerts ex_now ex_open_task (milestones ex_open_task)) = [''2024-06-17'']"
proof -
  have b: "status task \<noteq> Complete \<and> status task \<noteq> Cancelled \<longrightarrow>
        computeAlerts now (pre @ task # post) =
          computeAlerts now pre @ due_date_alerts now task
            @ milestone_alerts now task (milestones task) @ computeAlerts now post"
    by (simp add: computeAlerts_append)
  have c: "\<forall>a\<in>set (due_date_alerts now task). a_type a \<noteq> MilestoneDueSoon"
    using due_date_alerts_types by blast
  have d: "\<forall>a\<in>set (milestone_alerts now task mss). a_type a = MilestoneDueSoon"
    using milestone_alerts_types by blast
  have e: "\<forall>x. parseISO target = Some x \<longrightarrow>
         (\<not> isBefore (setHours0 (parseISO target)) (setHours0 (Some now))
          \<and> isAfter (addDays (setHours0 (Some now)) 3) (setHours0 (parseISO target)))
         = (\<not> date_less (cal x) (cal now) \<and> date_less (cal x) (shift_days (cal now) 3))"
    by (simp add: date_only)
  have f: "parseISO target = None \<longrightarrow>
         \<not> isAfter (addDays (setHours0 (Some now)) 3) (setHours0 (parseISO target))"
    by (simp add: setHours0_def isAfter_def addDays_def)
  have g: "map m_targetDate (milestones ex_open_task) = [''2024-06-17'', ''2024-06-19'']"
    by (simp add: ex_open_task_def)
  have h: "map a_date (milestone_alerts ex_now ex_open_task (milestones ex_open_task)) = [''2024-06-17'']"
    by (simp add: ex_open_milestones)
  from milestone_alerts_concat [of now task mss] b c d e f g h show ?thesis by blast
qed

theorem milestone_due_soon_rule_witness:
  "status ex_open_task \<noteq> Complete \<and> status ex_open_task \<noteq> Cancelled
   \<and> parseISO ''2024-06-17'' = Some \<lparr>cal = \<lparr>year = 2024, month = 6, day = 17\<rparr>, ms_of_day = 0\<rparr>
   \<and> computeAlerts ex_now ([] @ ex_open_task # []) =
        due_date_alerts ex_now ex_open_task
          @ milestone_alerts ex_now ex_open_task (milestones ex_open_task)
   \<and> \<not> date_less \<lparr>year = 2024, month = 6, day = 17\<rparr> (cal ex_now)
   \<and> date_less \<lparr>year = 2024, month = 6, day = 17\<rparr> (shift_days (cal ex_now) 3)"
proof -
  have s: "status ex_open_task \<noteq> Complete \<and> status ex_open_task \<noteq> Cancelled"
    by (simp add: ex_open_task_def ex_task_def)
  have p: "parseISO ''2024-06-17'' = Some \<lparr>cal = \<lparr>year = 2024, month = 6, day = 17\<rparr>, ms_of_day = 0\<rparr>"
    by (simp add: calendar_defs text_defs)
  have q: "\<not> isBefore (setHours0 (parseISO ''2024-06-17'')) (setHours0 (Some ex_now))
          \<and> isAfter (addDays (setHours0 (Some ex_now)) 3) (setHours0 (parseISO ''2024-06-17''))"
    by (simp add: alert_eval)
  note t = milestone_due_soon_rule [where now = ex_now and task = ex_open_task and pre = "[]"
      and post = "[]" and target = "''2024-06-17''" and mss = "[]"]
  from t s have 1: "computeAlerts ex_now ([] @ ex_open_task # []) =
        computeAlerts ex_now [] @ due_date_alerts ex_now ex_open_task
          @ milestone_alerts ex_now ex_open_task (milestones ex_open_task) @ computeAlerts ex_now []"
    by blast
  from t p q have 2: "\<not> date_less \<lparr>year = 2024, month = 6, day = 17\<rparr> (cal ex_now)
   \<and> date_less \<lparr>year = 2024, month = 6, day = 17\<rparr> (shift_days (cal ex_now) 3)"
    by simp
  from s p 1 2 show ?thesis by simp
qed









section \<open>The example store at work\<close>

lemmas store_eval =
  updateTask_def updateTask_body_def makeChangelog_def ex_store_def ex_task_def ex_uuid_def
  Let_def string_of_int_def digit_char_def opt_value_def

lemma ex_inj: "inj ex_uuid"
  by (simp add: inj_def ex_uuid_def)

lemma ex_ids_drawn: "ids_drawn ex_uuid ex_store"
  by (simp add: ids_drawn_def ex_store_def ex_task_def ex_uuid_def)

lemma ex_update_changelog:
  "changelog (tasks (updateTask ex_uuid ''2024-02-01T07:00:00.000Z'' ''T1''
       [Set_title ''Report'', Set_updatedAt ''never'', Set_reminderDays (Some 3)] ex_store) ! 0)
   = [\<lparr>c_id = ''id-'', c_timestamp = ''2024-01-01T08:00:00.000Z'',
        c_field = ''created'', c_oldValue = [], c_newValue = ''Monthly report''\<rparr>,
      \<lparr>c_id = ''id-i'', c_timestamp = ''2024-02-01T07:00:00.000Z'',
        c_field = ''title'', c_oldValue = ''Monthly report'', c_newValue = ''Report''\<rparr>,
      \<lparr>c_id = ''id-ii'', c_timestamp = ''2024-02-01T07:00:00.000Z'',
        c_field = ''reminderDays'', c_oldValue = ''2'', c_newValue = ''3''\<rparr>]"
  by (simp add: store_eval)

lemma ex_fold_changelog:
  "map c_field (changelog (tasks (fold (apply_mutation ex_uuid)
       [(''2024-02-01T07:00:00.000Z'', UpdateTask ''T1'' [Set_status InProgress]),
        (''2024-02-02T07:00:00.000Z'', DeleteSubtask ''T1'' ''S1''),
        (''2024-02-03T07:00:00.000Z'', AddUpdate ''T1'' ''sent'')] ex_store) ! 0))
   = [''created'', ''status'', ''update'']"
  by (simp add: store_eval deleteSubtask_def addUpdate_def)






theorem changelog_append_only_witness:
  "inj ex_uuid \<and> ids_drawn ex_uuid ex_store \<and> task_id (tasks ex_store ! 0) = ''T1''
   \<and> changelog (tasks (updateTask ex_uuid ''2024-02-01T07:00:00.000Z'' ''T1''
       [Set_title ''Report'', Set_updatedAt ''never'', Set_reminderDays (Some 3)] ex_store) ! 0)
      = [\<lparr>c_id = ''id-'', c_timestamp = ''2024-01-01T08:00:00.000Z'',
           c_field = ''created'', c_oldValue = [], c_newValue = ''Monthly report''\<rparr>,
         \<lparr>c_id = ''id-i'', c_timestamp = ''2024-02-01T07:00:00.000Z'',
           c_field = ''title'', c_oldValue = ''Monthly report'', c_newValue = ''Report''\<rparr>,
         \<lparr>c_id = ''id-ii'', c_timestamp = ''2024-02-01T07:00:00.000Z'',
           c_field = ''reminderDays'', c_oldValue = ''2'', c_newValue = ''3''\<rparr>]
   \<and> ids_drawn ex_uuid (fold (apply_mutation ex_uuid)
       [(''2024-02-01T07:00:00.000Z'', UpdateTask ''T1'' [Set_status InProgress]),
        (''2024-02-02T07:00:00.000Z'', DeleteSubtask ''T1'' ''S1''),
        (''2024-02-03T07:00:00.000Z'', AddUpdate ''T1'' ''sent'')] ex_store)
   \<and> take (length (changelog (tasks ex_store ! 0)))
        (changelog (tasks (fold (apply_mutation ex_uuid)
       [(''2024-02-01T07:00:00.000Z'', UpdateTask ''T1'' [Set_status InProgress]),
        (''2024-02-02T07:00:00.000Z'', DeleteSubtask ''T1'' ''S1''),
        (''2024-02-03T07:00:00.000Z'', AddUpdate ''T1'' ''sent'')] ex_store) ! 0))
      = changelog (tasks ex_store ! 0)
   \<and> map c_field (changelog (tasks (fold (apply_mutation ex_uuid)
       [(''2024-02-01T07:00:00.000Z'', UpdateTask ''T1'' [Set_status InProgress]),
        (''2024-02-02T07:00:00.000Z'', DeleteSubtask ''T1'' ''S1''),
        (''2024-02-03T07:00:00.000Z'', AddUpdate ''T1'' ''sent'')] ex_store) ! 0))
      = [''created'', ''status'', ''update'']"
proof -
  have l: "0 < length (tasks ex_store)" by (simp add: ex_store_def)
  have i: "task_id (tasks ex_store ! 0) = ''T1''" by (simp add: ex_store_def ex_task_def)
  note t = changelog_append_only [OF l, where uuid = ex_uuid
      and ms = "[(''2024-02-01T07:00:00.000Z'', UpdateTask ''T1'' [Set_status InProgress]),
        (''2024-02-02T07:00:00.000Z'', DeleteSubtask ''T1'' ''S1''),
        (''2024-02-03T07:00:00.000Z'', AddUpdate ''T1'' ''sent'')]"]
  from t ex_ids_drawn have a: "ids_drawn ex_uuid (fold (apply_mutation ex_uuid)
       [(''2024-02-01T07:00:00.000Z'', UpdateTask ''T1'' [Set_status InProgress]),
        (''2024-02-02T07:00:00.000Z'', DeleteSubtask ''T1'' ''S1''),
        (''2024-02-03T07:00:00.000Z'', AddUpdate ''T1'' ''sent'')] ex_store)"
    by blast
  from t have b: "take (length (changelog (tasks ex_store ! 0)))
        (changelog (tasks (fold (apply_mutation ex_uuid)
       [(''2024-02-01T07:00:00.000Z'', UpdateTask ''T1'' [Set_status InProgress]),
        (''2024-02-02T07:00:00.000Z'', DeleteSubtask ''T1'' ''S1''),
        (''2024-02-03T07:00:00.000Z'', AddUpdate ''T1'' ''sent'')] ex_store) ! 0))
      = changelog (tasks ex_store ! 0)"
    by blast
  from ex_inj ex_ids_drawn i ex_update_changelog a b ex_fold_changelog show ?thesis
    by blast
qed

text \<open>
  Claim C9, against the claim as stated: the subtask id \<^verbatim>\<open>S9\<close> is not among the subtasks of
  the task \<^verbatim>\<open>T1\<close>, and \<^verbatim>\<open>updateSubtask\<close> with it changes the store: \<open>updatedAt\<close> of the task
  becomes the instant of the call.
\<close>

theorem absent_subtask_counterexample:
  "''S9'' \<notin> s_id ` set (subtasks (tasks ex_store ! 0))
   \<and> updateSubtask ''2024-02-01T07:00:00.000Z'' ''T1'' ''S9''
         \<lparr>sp_id = None, sp_title = Some ''Check'', sp_status = None, sp_dueDate = None\<rparr> ex_store
       \<noteq> ex_store
   \<and> updatedAt (tasks ex_store ! 0) = ''2024-01-30T09:00:00.000Z''
   \<and> updatedAt (tasks (updateSubtask ''2024-02-01T07:00:00.000Z'' ''T1'' ''S9''
         \<lparr>sp_id = None, sp_title = Some ''Check'', sp_status = None, sp_dueDate = None\<rparr> ex_store) ! 0)
       = ''2024-02-01T07:00:00.000Z''"
proof -
  have a: "''S9'' \<notin> s_id ` set (subtasks (tasks ex_store ! 0))"
    by (simp add: ex_store_def ex_task_def)
  have b: "updatedAt (tasks ex_store ! 0) = ''2024-01-30T09:00:00.000Z''"
    by (simp add: ex_store_def ex_task_def)
  have c: "updatedAt (tasks (updateSubtask ''2024-02-01T07:00:00.000Z'' ''T1'' ''S9''
         \<lparr>sp_id = None, sp_title = Some ''Check'', sp_status = None, sp_dueDate = None\<rparr> ex_store) ! 0)
       = ''2024-02-01T07:00:00.000Z''"
    by (simp add: updateSubtask_def ex_store_def ex_task_def)
  from b c have "updateSubtask ''2024-02-01T07:00:00.000Z'' ''T1'' ''S9''
         \<lparr>sp_id = None, sp_title = Some ''Check'', sp_status = None, sp_dueDate = None\<rparr> ex_store
       \<noteq> ex_store"
    by auto
  with a b c show ?thesis by blast
qed

theorem absent_target_quiet_witness:
  "''T9'' \<notin> task_id ` set (tasks ex_store)
   \<and> updateTask ex_uuid ''2024-02-01T07:00:00.000Z'' ''T9'' [Set_title ''Report''] ex_store = ex_store
   \<and> deleteTask ''T9'' ex_store = ex_store
   \<and> deleteMilestone ''2024-02-01T07:00:00.000Z'' ''T9'' ''M1'' ex_store = ex_store
   \<and> ''S9'' \<notin> s_id ` set (subtasks ex_task)
   \<and> deleteSubtask ''2024-02-01T07:00:00.000Z'' ''T1'' ''S9'' ex_store
       = ex_store\<lparr>tasks := [ex_task\<lparr>updatedAt := ''2024-02-01T07:00:00.000Z''\<rparr>]\<rparr>"
proof -
  have a: "''T9'' \<notin> task_id ` set (tasks ex_store)"
    by (simp add: ex_store_def ex_task_def)
  have b: "''S9'' \<notin> s_id ` set (subtasks ex_task)"
    by (simp add: ex_task_def)
  have c: "\<forall>t\<in>set (tasks ex_store). task_id t = ''T1'' \<longrightarrow> ''S9'' \<notin> s_id ` set (subtasks t)"
    using b by (simp add: ex_store_def)
  have d: "ex_store\<lparr>tasks := map (\<lambda>t. if task_id t = ''T1'' then t\<lparr>updatedAt := ''2024-02-01T07:00:00.000Z''\<rparr>
                                      else t) (tasks ex_store)\<rparr>
           = ex_store\<lparr>tasks := [ex_task\<lparr>updatedAt := ''2024-02-01T07:00:00.000Z''\<rparr>]\<rparr>"
    by (simp add: ex_store_def) (simp add: ex_task_def)
  note t1 = absent_target_quiet [where s = ex_store and ident = "''T9''" and uuid = ex_uuid
      and now = "''2024-02-01T07:00:00.000Z''" and p = "[Set_title ''Report'']" and mid = "''M1''"]
  note t2 = absent_target_quiet [where s = ex_store and ident = "''T1''" and sid = "''S9''"
      and now = "''2024-02-01T07:00:00.000Z''"]
  from t1 a have 1: "updateTask ex_uuid ''2024-02-01T07:00:00.000Z'' ''T9'' [Set_title ''Report''] ex_store = ex_store
     \<and> deleteTask ''T9'' ex_store = ex_store
     \<and> deleteMilestone ''2024-02-01T07:00:00.000Z'' ''T9'' ''M1'' ex_store = ex_store"
    by blast
  from t2 c have "deleteSubtask ''2024-02-01T07:00:00.000Z'' ''T1'' ''S9'' ex_store
       = ex_store\<lparr>tasks := map (\<lambda>t. if task_id t = ''T1'' then t\<lparr>updatedAt := ''2024-02-01T07:00:00.000Z''\<rparr>
                                      else t) (tasks ex_store)\<rparr>"
    by blast
  with d have 2: "deleteSubtask ''2024-02-01T07:00:00.000Z'' ''T1'' ''S9'' ex_store
       = ex_store\<lparr>tasks := [ex_task\<lparr>updatedAt := ''2024-02-01T07:00:00.000Z''\<rparr>]\<rparr>"
    by simp
  from a b 1 2 show ?thesis by blast
qed

text \<open>
  Claim C10, against the claim as stated: deleting the project \<^verbatim>\<open>P1\<close> changes, in the task that
  referenced it, \<open>updatedAt\<close> and the changelog as well, not only \<open>projectId\<close>.
\<close>

theorem handleDelete_counterexample:
  "projectId (tasks (task_store ex_app) ! 0) = Some ''P1''
   \<and> updatedAt (tasks (task_store ex_app) ! 0) = ''2024-01-30T09:00:00.000Z''
   \<and> length (changelog (tasks (task_store ex_app) ! 0)) = 1
   \<and> updatedAt (tasks (task_store (handleDelete ex_uuid ''2024-02-01T07:00:00.000Z'' ''P1'' ex_app)) ! 0)
       = ''2024-02-01T07:00:00.000Z''
   \<and> map c_field (changelog (tasks (task_store
         (handleDelete ex_uuid ''2024-02-01T07:00:00.000Z'' ''P1'' ex_app)) ! 0))
       = [''created'', ''projectId'']"
  by (simp add: handleDelete_def ex_app_def store_eval)

theorem handleDelete_unlinks_witness:
  "distinct (map task_id (tasks (task_store ex_app)))
   \<and> projectId (tasks (task_store ex_app) ! 0) = Some ''P1''
   \<and> projects (handleDelete ex_uuid ''2024-02-01T07:00:00.000Z'' ''P1'' ex_app) = []
   \<and> length (tasks (task_store (handleDelete ex_uuid ''2024-02-01T07:00:00.000Z'' ''P1'' ex_app))) = 1
   \<and> projectId (tasks (task_store (handleDelete ex_uuid ''2024-02-01T07:00:00.000Z'' ''P1'' ex_app)) ! 0)
       = None
   \<and> title (tasks (task_store (handleDelete ex_uuid ''2024-02-01T07:00:00.000Z'' ''P1'' ex_app)) ! 0)
       = ''Monthly report''"
proof -
  have d: "distinct (map task_id (tasks (task_store ex_app)))"
    by (simp add: ex_app_def ex_store_def)
  have p: "projectId (tasks (task_store ex_app) ! 0) = Some ''P1''"
    "title (tasks (task_store ex_app) ! 0) = ''Monthly report''"
    "length (tasks (task_store ex_app)) = 1"
    "filter (\<lambda>p. p_id p \<noteq> ''P1'') (projects ex_app) = []"
    by (simp_all add: ex_app_def ex_store_def ex_task_def ex_project_def)
  note t = handleDelete_unlinks [OF d, of ex_uuid "''2024-02-01T07:00:00.000Z''" "''P1''"]
  from t p have a: "projects (handleDelete ex_uuid ''2024-02-01T07:00:00.000Z'' ''P1'' ex_app) = []"
    "length (tasks (task_store (handleDelete ex_uuid ''2024-02-01T07:00:00.000Z'' ''P1'' ex_app))) = 1"
    by simp_all
  from t p(3) have "let t = tasks (task_store ex_app) ! 0;
             t1 = tasks (task_store (handleDelete ex_uuid ''2024-02-01T07:00:00.000Z'' ''P1'' ex_app)) ! 0
         in if projectId t = Some ''P1''
            then \<exists>k. t1 = t\<lparr>projectId := None, updatedAt := ''2024-02-01T07:00:00.000Z'',
                            changelog := changelog t @
                              [\<lparr>c_id = ex_uuid k, c_timestamp = ''2024-02-01T07:00:00.000Z'',
                                c_field = ''projectId'',
                                c_oldValue = ''P1'', c_newValue = []\<rparr>]\<rparr>
            else t1 = t"
    by simp
  with p(1,2) have b:
    "projectId (tasks (task_store (handleDelete ex_uuid ''2024-02-01T07:00:00.000Z'' ''P1'' ex_app)) ! 0)
       = None"
    "title (tasks (task_store (handleDelete ex_uuid ''2024-02-01T07:00:00.000Z'' ''P1'' ex_app)) ! 0)
       = ''Monthly report''"
    by (auto simp: Let_def)
  from d p(1) a b show ?thesis by blast
qed

end
